theory Spec2Isabelle
  imports Complex_Main "HOL-Library.Product_Lexorder" "HOL-Library.Log_Nat" "HOL-Library.Multiset"
begin

section \<open>Data model (server.js, SCHEMAS)\<close>

text \<open>
  The vote ledger of the server: the \<open>Profile\<close> and \<open>Vote\<close> collections of the
  document store and the route handlers that read and write them.

  Modelling conventions.
  \<^item> Document ids (\<open>_id\<close>, \<open>voterId\<close>, \<open>winnerId\<close>, \<open>loserId\<close>) are natural numbers.
  \<^item> The \<open>Number\<close> counters of the schema hold integers (default \<open>0\<close>, changed only by
    \<open>+= 1\<close>); they are modelled as \<open>int\<close>. Where the handlers divide and multiply, the
    double arithmetic is modelled (see Number arithmetic below).
  \<^item> A \<open>Date\<close> is its number of milliseconds since the epoch, an \<open>int\<close>.
  \<^item> Fields of a profile that no vote handler reads or writes (username, bio, ...) are
    left out.
  \<^item> The store is always reachable: a handler's \<open>catch\<close> branch is modelled only where
    the handler's own code throws.
  \<^item> A handler is modelled from the point where its body runs: the request has passed
    the rate limiter and the authentication middleware, and the ids it carries are
    well-formed.
\<close>

record historyEntry =
  hVoterId :: nat
  hTimestamp :: int

record profile =
  pid :: nat
  votes :: int
  score :: int
  battleWins :: int
  battleLosses :: int
  votesHistory :: "historyEntry list"
  chadVotes :: int
  jeetVotes :: int

record vote =
  voterId :: nat
  winnerId :: nat
  loserId :: nat
  timestamp :: int

text \<open>The two collections, each in the store's natural order.\<close>

record db =
  Profile :: "profile list"
  Vote :: "vote list"

text \<open>
  The responses a handler sends instead of its success body:
  \<open>400 'Already voted for this battle'\<close>, \<open>404 'Profile not found'\<close>,
  \<open>500 'Failed to submit vote'\<close>.
\<close>

datatype error = DuplicateVote | ProfileNotFound | FailedToSubmitVote

subsection \<open>Store operations\<close>

text \<open>\<open>Profile.findById(id)\<close>: the document with this \<open>_id\<close>, or \<open>null\<close>.\<close>

definition findById :: "profile list \<Rightarrow> nat \<Rightarrow> profile option" where
  "findById ps i = List.find (\<lambda>p. pid p = i) ps"

text \<open>
  \<open>doc.save()\<close> writes the paths modified on the in-memory document to the stored
  document with the same \<open>_id\<close>; \<open>updateById i delta\<close> applies such a write \<open>delta\<close>.
\<close>

fun updateById :: "nat \<Rightarrow> (profile \<Rightarrow> profile) \<Rightarrow> profile list \<Rightarrow> profile list" where
  "updateById i delta [] = []"
| "updateById i delta (p # ps) =
     (if pid p = i then delta p # ps else p # updateById i delta ps)"

section \<open>Chad/Jeet voting (POST /api/votes/profile/:id)\<close>

subsection \<open>Number arithmetic\<close>

text \<open>
  A JavaScript number is an IEEE 754 double. The counters and their sums are integers
  far below \<open>2^53\<close>, which doubles hold exactly, so they stay \<open>int\<close>. A quotient or a
  product is the exact result rounded to the nearest double, a tie to the even
  significand: \<open>binade x\<close> is the exponent \<open>e\<close> with \<open>2^e \<le> x < 2^(e+1)\<close>, and
  \<open>double x\<close> rounds \<open>x\<close> to a multiple of \<open>2^(e-52)\<close>. Overflow and subnormal
  numbers are left out: a quotient of two such counters and its product with 100 are in
  the normal range.
\<close>

definition binade :: "rat \<Rightarrow> int" where
  "binade x =
     (let (p, q) = quotient_of x; k = bitlen p - bitlen q
      in if power_int 2 k \<le> x then k else k - 1)"

definition roundTiesToEven :: "rat \<Rightarrow> int" where
  "roundTiesToEven m =
     (let n = \<lfloor>m\<rfloor>; f = m - of_int n
      in if f < 1 / 2 then n else if 1 / 2 < f then n + 1 else if even n then n else n + 1)"

definition double :: "rat \<Rightarrow> rat" where
  "double x =
     (if x = 0 then 0
      else (let e = binade \<bar>x\<bar>
            in sgn x * of_int (roundTiesToEven (\<bar>x\<bar> * power_int 2 (52 - e))) * power_int 2 (e - 52)))"

text \<open>
  \<open>Math.round\<close> gives the integer nearest to its argument, a tie towards \<open>+\<infinity>\<close>; it is
  exact on the double it is given.
\<close>

definition Math_round :: "rat \<Rightarrow> int" where
  "Math_round x = \<lfloor>x + 1 / 2\<rfloor>"

text \<open>The block "Ensure they add up to 100", on the two rounded values.\<close>

definition ensure100 :: "int \<Rightarrow> int \<Rightarrow> int \<Rightarrow> int \<Rightarrow> int \<times> int" where
  "ensure100 c j chadPercentage jeetPercentage =
     (if chadPercentage + jeetPercentage \<noteq> 100 then
        (if c \<ge> j then (100 - jeetPercentage, jeetPercentage)
         else (chadPercentage, 100 - chadPercentage))
      else (chadPercentage, jeetPercentage))"

text \<open>The block "Calculate percentages": the pair \<open>(chadPercentage, jeetPercentage)\<close>.\<close>

definition percentages :: "int \<Rightarrow> int \<Rightarrow> int \<times> int" where
  "percentages c j =
     (let total = c + j in
      if total > 0 then
        (let rawChadPercent = double (double (of_int c / of_int total) * 100);
             rawJeetPercent = double (double (of_int j / of_int total) * 100)
         in ensure100 c j (Math_round rawChadPercent) (Math_round rawJeetPercent))
      else (50, 50))"

record profileVoteResponse =
  rChadVotes :: int
  rJeetVotes :: int
  rChadPercentage :: int
  rJeetPercentage :: int

text \<open>\<open>x || 0\<close> on a number: \<open>0\<close> is the only falsy integer.\<close>

definition orZero :: "int \<Rightarrow> int" where
  "orZero x = (if x = 0 then 0 else x)"

text \<open>
  The handler. \<open>voteType\<close> is whatever string the request body carries; there is no
  \<open>else\<close> branch for a string other than \<open>'chad'\<close> and \<open>'jeet'\<close>.
\<close>

definition recordProfileVote ::
  "db \<Rightarrow> nat \<Rightarrow> string \<Rightarrow> db \<times> (error + profileVoteResponse)" where
  "recordProfileVote d profileId voteType =
     (case findById (Profile d) profileId of
        None \<Rightarrow> (d, Inl ProfileNotFound)
      | Some p \<Rightarrow>
          (let p' = (if voteType = ''chad'' then p\<lparr>chadVotes := orZero (chadVotes p) + 1\<rparr>
                     else if voteType = ''jeet'' then p\<lparr>jeetVotes := orZero (jeetVotes p) + 1\<rparr>
                     else p);
               d' = d\<lparr>Profile := updateById profileId
                      (\<lambda>q. q\<lparr>chadVotes := chadVotes p', jeetVotes := jeetVotes p'\<rparr>) (Profile d)\<rparr>;
               (chadPercentage, jeetPercentage) = percentages (chadVotes p') (jeetVotes p')
           in (d', Inr \<lparr>rChadVotes = chadVotes p', rJeetVotes = jeetVotes p',
                        rChadPercentage = chadPercentage, rJeetPercentage = jeetPercentage\<rparr>)))"

text \<open>A sequence of calls \<open>(profileId, voteType)\<close>, each on the state the last one left.\<close>

fun recordProfileVotes :: "db \<Rightarrow> (nat \<times> string) list \<Rightarrow> db" where
  "recordProfileVotes d [] = d"
| "recordProfileVotes d ((profileId, voteType) # calls) =
     recordProfileVotes (fst (recordProfileVote d profileId voteType)) calls"

section \<open>Battle voting (POST /api/votes/battle)\<close>

text \<open>
  The filter of \<open>Vote.findOne\<close> in the duplicate check: same voter, the pair of profile
  ids in either order, and a timestamp within the last 60000 ms.
\<close>

definition recentVote :: "int \<Rightarrow> nat \<Rightarrow> nat \<Rightarrow> nat \<Rightarrow> vote \<Rightarrow> bool" where
  "recentVote now userId wId lId v \<longleftrightarrow>
     voterId v = userId \<and>
     (winnerId v = wId \<and> loserId v = lId \<or> winnerId v = lId \<and> loserId v = wId) \<and>
     timestamp v \<ge> now - 60000"

definition existingVote :: "vote list \<Rightarrow> int \<Rightarrow> nat \<Rightarrow> nat \<Rightarrow> nat \<Rightarrow> vote option" where
  "existingVote vs now userId wId lId = List.find (recentVote now userId wId lId) vs"

text \<open>\<open>new Vote({voterId, winnerId, loserId})\<close> with the default timestamp, then \<open>vote.save()\<close>.\<close>

definition saveVote :: "db \<Rightarrow> int \<Rightarrow> nat \<Rightarrow> nat \<Rightarrow> nat \<Rightarrow> db" where
  "saveVote d now userId wId lId =
     d\<lparr>Vote := Vote d @ [\<lparr>voterId = userId, winnerId = wId, loserId = lId, timestamp = now\<rparr>]\<rparr>"

text \<open>The changes made to the two loaded documents, in memory.\<close>

definition applyWin :: "int \<Rightarrow> nat \<Rightarrow> profile \<Rightarrow> profile" where
  "applyWin now userId winner =
     winner\<lparr>votes := votes winner + 1, score := score winner + 1,
            battleWins := battleWins winner + 1,
            votesHistory := votesHistory winner @ [\<lparr>hVoterId = userId, hTimestamp = now\<rparr>]\<rparr>"

definition applyLoss :: "profile \<Rightarrow> profile" where
  "applyLoss loser = loser\<lparr>battleLosses := battleLosses loser + 1\<rparr>"

text \<open>
  \<open>winner.save()\<close> sets the three modified counters to the in-memory values and pushes
  the new history entry; \<open>loser.save()\<close> sets \<open>battleLosses\<close> to the in-memory value.
  Both address the stored document by \<open>_id\<close>.
\<close>

definition saveWinner :: "db \<Rightarrow> int \<Rightarrow> nat \<Rightarrow> profile \<Rightarrow> db" where
  "saveWinner d now userId winner =
     d\<lparr>Profile := updateById (pid winner)
          (\<lambda>q. q\<lparr>votes := votes winner, score := score winner, battleWins := battleWins winner,
                  votesHistory := votesHistory q @ [\<lparr>hVoterId = userId, hTimestamp = now\<rparr>]\<rparr>)
          (Profile d)\<rparr>"

definition saveLoser :: "db \<Rightarrow> profile \<Rightarrow> db" where
  "saveLoser d loser =
     d\<lparr>Profile := updateById (pid loser) (\<lambda>q. q\<lparr>battleLosses := battleLosses loser\<rparr>) (Profile d)\<rparr>"

text \<open>The success body: \<open>{winner: {id, votes, score}, loser: {id, votes, score}}\<close>.\<close>

record battleVoteResponse =
  winner_id :: nat
  winner_votes :: int
  winner_score :: int
  loser_id :: nat
  loser_votes :: int
  loser_score :: int

definition battleResponse :: "profile \<Rightarrow> profile \<Rightarrow> battleVoteResponse" where
  "battleResponse winner loser =
     \<lparr>winner_id = pid winner, winner_votes = votes winner, winner_score = score winner,
      loser_id = pid loser, loser_votes = votes loser, loser_score = score loser\<rparr>"

text \<open>
  The handler, for the authenticated user \<open>userId\<close> at clock reading \<open>now\<close>. When a
  profile is missing the update block is skipped and building the response reads a
  field of \<open>null\<close>: the \<open>TypeError\<close> lands in the \<open>catch\<close> branch.
\<close>

definition recordBattleVote ::
  "db \<Rightarrow> int \<Rightarrow> nat \<Rightarrow> nat \<Rightarrow> nat \<Rightarrow> db \<times> (error + battleVoteResponse)" where
  "recordBattleVote d now userId wId lId =
     (case existingVote (Vote d) now userId wId lId of
        Some v \<Rightarrow> (d, Inl DuplicateVote)
      | None \<Rightarrow>
          (let d1 = saveVote d now userId wId lId in
           case (findById (Profile d1) wId, findById (Profile d1) lId) of
             (Some winner, Some loser) \<Rightarrow>
               (let winner' = applyWin now userId winner;
                    loser' = applyLoss loser;
                    d2 = saveWinner d1 now userId winner';
                    d3 = saveLoser d2 loser'
                in (d3, Inr (battleResponse winner' loser')))
           | _ \<Rightarrow> (d1, Inl FailedToSubmitVote)))"

subsection \<open>The handler between its awaits\<close>

text \<open>
  The handler suspends at each \<open>await\<close>; another request can run in between. A task is
  the point a request has reached, with the documents it holds in memory.
\<close>

datatype task =
    Start
  | Checked
  | VoteSaved
  | WinnerFound "profile option"
  | Loaded profile profile
  | WinnerSaved profile profile
  | Finished "error + battleVoteResponse"

fun battleStep :: "int \<Rightarrow> nat \<Rightarrow> nat \<Rightarrow> nat \<Rightarrow> db \<times> task \<Rightarrow> db \<times> task" where
  "battleStep now userId wId lId (d, Start) =
     (case existingVote (Vote d) now userId wId lId of
        Some v \<Rightarrow> (d, Finished (Inl DuplicateVote))
      | None \<Rightarrow> (d, Checked))"
| "battleStep now userId wId lId (d, Checked) = (saveVote d now userId wId lId, VoteSaved)"
| "battleStep now userId wId lId (d, VoteSaved) = (d, WinnerFound (findById (Profile d) wId))"
| "battleStep now userId wId lId (d, WinnerFound w) =
     (case (w, findById (Profile d) lId) of
        (Some winner, Some loser) \<Rightarrow> (d, Loaded (applyWin now userId winner) (applyLoss loser))
      | _ \<Rightarrow> (d, Finished (Inl FailedToSubmitVote)))"
| "battleStep now userId wId lId (d, Loaded winner loser) =
     (saveWinner d now userId winner, WinnerSaved winner loser)"
| "battleStep now userId wId lId (d, WinnerSaved winner loser) =
     (saveLoser d loser, Finished (Inr (battleResponse winner loser)))"
| "battleStep now userId wId lId (d, Finished r) = (d, Finished r)"

text \<open>
  Two requests \<open>(now, userId, winnerId, loserId)\<close> in flight; the schedule says which
  one runs to its next \<open>await\<close> (\<open>False\<close> the first, \<open>True\<close> the second).
\<close>

fun interleave ::
  "int \<times> nat \<times> nat \<times> nat \<Rightarrow> int \<times> nat \<times> nat \<times> nat \<Rightarrow> bool list \<Rightarrow>
   db \<times> task \<times> task \<Rightarrow> db \<times> task \<times> task" where
  "interleave r1 r2 [] s = s"
| "interleave (n1, u1, w1, l1) r2 (False # sched) (d, t1, t2) =
     (let (d', t1') = battleStep n1 u1 w1 l1 (d, t1) in
      interleave (n1, u1, w1, l1) r2 sched (d', t1', t2))"
| "interleave r1 (n2, u2, w2, l2) (True # sched) (d, t1, t2) =
     (let (d', t2') = battleStep n2 u2 w2 l2 (d, t2) in
      interleave r1 (n2, u2, w2, l2) sched (d', t1, t2'))"

text \<open>
  Whether, in a schedule, one request loads the winner after the other has saved it.
  \<open>c1\<close> and \<open>c2\<close> count the steps the two requests have taken so far: a request's
  third step loads the winner (\<open>VoteSaved\<close> to \<open>WinnerFound\<close>), its fifth step saves it
  (\<open>Loaded\<close> to \<open>WinnerSaved\<close>).
\<close>

fun loadsAfterSave :: "nat \<Rightarrow> nat \<Rightarrow> bool list \<Rightarrow> bool" where
  "loadsAfterSave c1 c2 [] = False"
| "loadsAfterSave c1 c2 (False # sched) = (c1 = 2 \<and> 5 \<le> c2 \<or> loadsAfterSave (Suc c1) c2 sched)"
| "loadsAfterSave c1 c2 (True # sched) = (c2 = 2 \<and> 5 \<le> c1 \<or> loadsAfterSave c1 (Suc c2) sched)"

text \<open>
  What a request in flight has done: the number of steps behind it, and the winner's
  \<open>votes\<close> as it read them.
\<close>

fun stage :: "task \<Rightarrow> nat" where
  "stage Start = 0"
| "stage Checked = 1"
| "stage VoteSaved = 2"
| "stage (WinnerFound x) = 3"
| "stage (Loaded a b) = 4"
| "stage (WinnerSaved a b) = 5"
| "stage (Finished r) = 6"

fun held :: "task \<Rightarrow> int" where
  "held (WinnerFound (Some q)) = votes q"
| "held (Loaded a b) = votes a - 1"
| "held (WinnerSaved a b) = votes a - 1"
| "held (Finished (Inr r)) = winner_votes r - 1"
| "held t = 0"

text \<open>
  Vocabulary for reasoning about two requests in flight, naming the same winner \<open>w\<close>
  whose \<open>votes\<close> were \<open>v0\<close> at the start. \<open>wellFormed\<close>: the documents a task holds are
  the winner and the task's loser, and the task has not failed. \<open>dbOK\<close>: the winner is
  stored with \<open>votes = s\<close> and both losers are stored. \<open>flag\<close>: some request has read the
  winner's \<open>votes\<close> as \<open>v0 + 1\<close>. \<open>AInv\<close>: how the stored \<open>votes\<close> relate to what the two
  requests have read, by the steps each has behind it.
\<close>

definition wellFormed :: "nat \<Rightarrow> nat \<Rightarrow> task \<Rightarrow> bool" where
  "wellFormed w l t =
     (case t of
        WinnerFound x \<Rightarrow> (case x of None \<Rightarrow> False | Some q \<Rightarrow> pid q = w)
      | Loaded a b \<Rightarrow> pid a = w \<and> pid b = l
      | WinnerSaved a b \<Rightarrow> pid a = w \<and> pid b = l
      | Finished r \<Rightarrow> (case r of Inl e \<Rightarrow> False | Inr x \<Rightarrow> True)
      | _ \<Rightarrow> True)"

definition dbOK :: "nat \<Rightarrow> nat \<Rightarrow> nat \<Rightarrow> int \<Rightarrow> db \<Rightarrow> bool" where
  "dbOK w l1 l2 s d \<longleftrightarrow>
     (\<exists>q. findById (Profile d) w = Some q \<and> votes q = s) \<and>
     findById (Profile d) l1 \<noteq> None \<and> findById (Profile d) l2 \<noteq> None"

definition flag :: "int \<Rightarrow> nat \<Rightarrow> int \<Rightarrow> nat \<Rightarrow> int \<Rightarrow> bool" where
  "flag v0 k1 h1 k2 h2 \<longleftrightarrow> 3 \<le> k1 \<and> h1 = v0 + 1 \<or> 3 \<le> k2 \<and> h2 = v0 + 1"

definition AInv :: "int \<Rightarrow> nat \<Rightarrow> nat \<Rightarrow> int \<Rightarrow> nat \<Rightarrow> int \<Rightarrow> nat \<Rightarrow> int \<Rightarrow> bool" where
  "AInv v0 c1 c2 s k1 h1 k2 h2 \<longleftrightarrow>
     k1 = min 6 c1 \<and> k2 = min 6 c2 \<and>
     (k1 < 5 \<and> k2 < 5 \<longrightarrow> s = v0 \<and> (3 \<le> k1 \<longrightarrow> h1 = v0) \<and> (3 \<le> k2 \<longrightarrow> h2 = v0)) \<and>
     (5 \<le> k1 \<and> k2 < 5 \<longrightarrow> s = v0 + 1 \<and> h1 = v0 \<and> (3 \<le> k2 \<longrightarrow> h2 = v0 \<or> h2 = v0 + 1)) \<and>
     (k1 < 5 \<and> 5 \<le> k2 \<longrightarrow> s = v0 + 1 \<and> h2 = v0 \<and> (3 \<le> k1 \<longrightarrow> h1 = v0 \<or> h1 = v0 + 1)) \<and>
     (5 \<le> k1 \<and> 5 \<le> k2 \<longrightarrow>
        s = max h1 h2 + 1 \<and>
        (h1 = v0 \<and> (h2 = v0 \<or> h2 = v0 + 1) \<or> h2 = v0 \<and> (h1 = v0 \<or> h1 = v0 + 1)))"

section \<open>Leaderboard (GET /api/leaderboard)\<close>

text \<open>
  The \<open>switch\<close> on \<open>period\<close>: a filter on \<open>votesHistory.timestamp\<close> for \<open>'day'\<close>,
  \<open>'week'\<close> and \<open>'month'\<close>, the empty filter for every other string. A filter on an array
  path matches a document when one element matches.
\<close>

definition dateFilter :: "string \<Rightarrow> int \<Rightarrow> profile \<Rightarrow> bool" where
  "dateFilter period now p =
     (if period = ''day'' then
        list_ex (\<lambda>e. hTimestamp e \<ge> now - 24 * 60 * 60 * 1000) (votesHistory p)
      else if period = ''week'' then
        list_ex (\<lambda>e. hTimestamp e \<ge> now - 7 * 24 * 60 * 60 * 1000) (votesHistory p)
      else if period = ''month'' then
        list_ex (\<lambda>e. hTimestamp e \<ge> now - 30 * 24 * 60 * 60 * 1000) (votesHistory p)
      else True)"

text \<open>
  \<open>.sort({votes: -1, score: -1})\<close>: descending by \<open>votes\<close>, then descending by \<open>score\<close>.
  The sort has no further key; documents that agree on both are kept here in collection
  order.
\<close>

definition sortVotesScore :: "profile list \<Rightarrow> profile list" where
  "sortVotesScore ps = sort_key (\<lambda>p. (- votes p, - score p)) ps"

text \<open>\<open>.limit(n)\<close> for the parsed \<open>n \<ge> 0\<close>: the store reads a limit of \<open>0\<close> as no limit.\<close>

definition limitTo :: "nat \<Rightarrow> 'a list \<Rightarrow> 'a list" where
  "limitTo n xs = (if n = 0 then xs else take n xs)"

definition getLeaderboard :: "db \<Rightarrow> int \<Rightarrow> string \<Rightarrow> nat \<Rightarrow> profile list" where
  "getLeaderboard d now period limit =
     limitTo limit (sortVotesScore (filter (dateFilter period now) (Profile d)))"

section \<open>A new battle pair (GET /api/profiles?sort=random, loadNewProfiles)\<close>

text \<open>
  The \<open>$sample\<close> stage with \<open>size: n\<close> picks \<open>n\<close> documents of the collection at random,
  no document twice: the store sorts the collection by a random key and keeps the first
  \<open>n\<close> documents. The random keys are the parameter \<open>rnd\<close>, which gives the key of the
  document at each position.
\<close>

definition sample :: "(nat \<Rightarrow> nat) \<Rightarrow> nat \<Rightarrow> profile list \<Rightarrow> profile list" where
  "sample rnd n ps = take n (map snd (sort_key fst (zip (map rnd [0..<length ps]) ps)))"

text \<open>The route with \<open>sort = 'random'\<close>: the sample is the response.\<close>

definition getProfilesRandom :: "db \<Rightarrow> (nat \<Rightarrow> nat) \<Rightarrow> nat \<Rightarrow> profile list" where
  "getProfilesRandom d rnd limit = sample rnd limit (Profile d)"

text \<open>
  The client asks for \<open>limit: 2\<close>, gives up when fewer than two profiles arrive, and
  otherwise keeps \<open>profiles[0]\<close> and \<open>profiles[1]\<close> as the left and the right profile.
\<close>

definition loadNewProfiles :: "db \<Rightarrow> (nat \<Rightarrow> nat) \<Rightarrow> (profile \<times> profile) option" where
  "loadNewProfiles d rnd =
     (let profiles = getProfilesRandom d rnd 2
      in if length profiles < 2 then None else Some (profiles ! 0, profiles ! 1))"

section \<open>Properties of Chad/Jeet voting\<close>

lemma orZero_id [simp]: "orZero x = x"
  by (simp add: orZero_def)

lemma findById_pid: "findById ps i = Some p \<Longrightarrow> pid p = i"
  by (induction ps) (auto simp: findById_def split: if_splits)

lemma updateById_same:
  "findById ps i = Some p \<Longrightarrow> delta p = p \<Longrightarrow> updateById i delta ps = ps"
  by (induction ps) (auto simp: findById_def split: if_splits)

lemma findById_updateById:
  "findById ps i = Some p \<Longrightarrow> pid (delta p) = i \<Longrightarrow>
   findById (updateById i delta ps) i = Some (delta p)"
  by (induction ps) (auto simp: findById_def split: if_splits)

lemma findById_updateById_other:
  "(\<And>q. pid (delta q) = pid q) \<Longrightarrow> i \<noteq> k \<Longrightarrow>
   findById (updateById i delta ps) k = findById ps k"
  by (induction ps) (auto simp: findById_def split: if_splits)

lemma list_all2_updateById:
  assumes "\<And>p. R p p" and "\<And>p. findById ps i = Some p \<Longrightarrow> R p (delta p)"
  shows "list_all2 R ps (updateById i delta ps)"
  using assms(2)
  by (induction ps) (auto simp: findById_def assms(1) list_all2_refl split: if_splits)

lemma ensure100_sum: "fst (ensure100 c j a b) + snd (ensure100 c j a b) = 100"
  by (simp add: ensure100_def)

lemma percentages_sum: "fst (percentages c j) + snd (percentages c j) = 100"
  by (simp add: percentages_def Let_def ensure100_sum)

lemma percentages_zero: "c + j = 0 \<Longrightarrow> percentages c j = (50, 50)"
  by (simp add: percentages_def)

lemma recordProfileVote_Inr:
  assumes "recordProfileVote d profileId voteType = (d', Inr r)"
  shows "(rChadPercentage r, rJeetPercentage r) = percentages (rChadVotes r) (rJeetVotes r)"
  using assms
  by (auto simp: recordProfileVote_def Let_def split: option.splits prod.splits if_splits)

subsection \<open>The doubles\<close>

lemma binade_bounds:
  assumes "0 < x"
  shows "power_int 2 (binade x) \<le> x \<and> x < power_int 2 (binade x + 1)"
proof -
  obtain p q where pq: "quotient_of x = (p, q)" by (cases "quotient_of x")
  then have q: "0 < q" and x: "x = of_int p / of_int q"
    by (auto dest: quotient_of_denom_pos quotient_of_div)
  from assms x q have p: "0 < p"
    by (simp add: zero_less_divide_iff)
  let ?k = "bitlen p - bitlen q"
  have bp: "1 \<le> bitlen p" and bq: "1 \<le> bitlen q"
    using p q by (simp_all add: bitlen_alt_def)
  have P: "power_int 2 (bitlen p - 1) \<le> (of_int p :: rat)" "(of_int p :: rat) < power_int 2 (bitlen p)"
  proof -
    from bitlen_bounds [OF p] have "2 ^ nat (bitlen p - 1) \<le> p" "p < 2 ^ nat (bitlen p)" by simp_all
    then have "(of_int (2 ^ nat (bitlen p - 1)) :: rat) \<le> of_int p" "(of_int p :: rat) < of_int (2 ^ nat (bitlen p))"
      by (simp_all only: of_int_le_iff of_int_less_iff)
    then show "power_int 2 (bitlen p - 1) \<le> (of_int p :: rat)" "(of_int p :: rat) < power_int 2 (bitlen p)"
      using bp by (simp_all add: power_int_def)
  qed
  have Q: "power_int 2 (bitlen q - 1) \<le> (of_int q :: rat)" "(of_int q :: rat) < power_int 2 (bitlen q)"
  proof -
    from bitlen_bounds [OF q] have "2 ^ nat (bitlen q - 1) \<le> q" "q < 2 ^ nat (bitlen q)" by simp_all
    then have "(of_int (2 ^ nat (bitlen q - 1)) :: rat) \<le> of_int q" "(of_int q :: rat) < of_int (2 ^ nat (bitlen q))"
      by (simp_all only: of_int_le_iff of_int_less_iff)
    then show "power_int 2 (bitlen q - 1) \<le> (of_int q :: rat)" "(of_int q :: rat) < power_int 2 (bitlen q)"
      using bq by (simp_all add: power_int_def)
  qed
  have qpos: "(0::rat) < of_int q" using q by simp
  have lower: "power_int 2 (?k - 1) \<le> x"
  proof -
    have "power_int 2 (?k - 1) * (of_int q :: rat) \<le> power_int 2 (?k - 1) * power_int 2 (bitlen q)"
      using Q(2) by (intro mult_left_mono) simp_all
    also have "\<dots> = power_int 2 (bitlen p - 1)"
      by (simp add: power_int_add [symmetric])
    also have "\<dots> \<le> of_int p" by (rule P(1))
    finally show ?thesis
      using qpos by (simp add: x pos_le_divide_eq)
  qed
  have upper: "x < power_int 2 (?k + 1)"
  proof -
    have "(of_int p :: rat) < power_int 2 (bitlen p)" by (rule P(2))
    also have "\<dots> = power_int 2 (?k + 1) * power_int 2 (bitlen q - 1)"
      by (simp add: power_int_add [symmetric])
    also have "\<dots> \<le> power_int 2 (?k + 1) * of_int q"
      using Q(1) by (intro mult_left_mono) simp_all
    finally show ?thesis
      using qpos by (simp add: x pos_divide_less_eq)
  qed
  show ?thesis
  proof (cases "power_int 2 ?k \<le> x")
    case True
    then show ?thesis using upper by (simp add: binade_def pq)
  next
    case False
    then show ?thesis using lower by (simp add: binade_def pq)
  qed
qed

lemma roundTiesToEven_error: "\<bar>of_int (roundTiesToEven m) - m\<bar> \<le> 1 / 2"
proof -
  have "of_int \<lfloor>m\<rfloor> \<le> m" "m < of_int \<lfloor>m\<rfloor> + 1" by linarith+
  then show ?thesis
    by (auto simp: roundTiesToEven_def Let_def)
qed

lemma double_error: "\<bar>double x - x\<bar> \<le> \<bar>x\<bar> / 2 ^ 53"
proof (cases "x = 0")
  case True
  then show ?thesis by (simp add: double_def)
next
  case False
  let ?a = "\<bar>x\<bar>"
  let ?e = "binade ?a"
  let ?n = "roundTiesToEven (?a * power_int 2 (52 - ?e))"
  from False have a: "0 < ?a" by simp
  have d: "double x = sgn x * (of_int ?n * power_int 2 (?e - 52))"
    using False by (simp add: double_def Let_def mult.assoc)
  have xs: "x = sgn x * ?a" by (simp add: sgn_mult_abs)
  have "\<bar>double x - x\<bar> = \<bar>sgn x * (of_int ?n * power_int 2 (?e - 52) - ?a)\<bar>"
    by (subst d, subst (2) xs) (simp only: right_diff_distrib)
  also have "\<dots> = \<bar>of_int ?n * power_int 2 (?e - 52) - ?a\<bar>"
    using False by (simp add: abs_mult abs_sgn_eq)
  also have "of_int ?n * power_int 2 (?e - 52) - ?a =
             (of_int ?n - ?a * power_int 2 (52 - ?e)) * power_int 2 (?e - 52)"
    by (simp add: left_diff_distrib mult.assoc power_int_add [symmetric])
  also have "\<bar>\<dots>\<bar> = \<bar>of_int ?n - ?a * power_int 2 (52 - ?e)\<bar> * power_int 2 (?e - 52)"
    by (simp add: abs_mult)
  also have "\<dots> \<le> (1 / 2) * power_int 2 (?e - 52)"
    by (intro mult_right_mono roundTiesToEven_error) simp
  also have "\<dots> = power_int 2 ?e / 2 ^ 53"
  proof -
    have "power_int (2::rat) (?e - 52) = power_int 2 ?e / 2 ^ 52"
      by (simp add: power_int_diff)
    then show ?thesis by simp
  qed
  also have "\<dots> \<le> ?a / 2 ^ 53"
    using binade_bounds [OF a] by (simp add: divide_right_mono)
  finally show ?thesis .
qed

lemma double_percent_error:
  assumes "0 \<le> q"
  shows "\<bar>double (double q * 100) - 100 * q\<bar> \<le> 100 * q / 2 ^ 51"
proof -
  define u :: rat where "u = 1 / 2 ^ 53"
  have u: "0 < u" "2 * u + u * u \<le> 1 / 2 ^ 51"
    by (simp_all add: u_def)
  define x1 where "x1 = double q"
  define x2 where "x2 = double (x1 * 100)"
  have e1: "\<bar>x1 - q\<bar> \<le> q * u"
    using double_error [of q] assms by (simp add: u_def x1_def)
  then have x1: "\<bar>x1\<bar> \<le> q + q * u"
    using assms by linarith
  have "\<bar>x2 - x1 * 100\<bar> \<le> \<bar>x1 * 100\<bar> * u"
    using double_error [of "x1 * 100"] by (simp add: u_def x2_def)
  also have "\<bar>x1 * 100\<bar> = \<bar>x1\<bar> * 100"
    by (simp add: abs_mult)
  also have "\<bar>x1\<bar> * 100 * u \<le> (q + q * u) * 100 * u"
    using x1 u(1) by (intro mult_right_mono) simp_all
  finally have e2: "\<bar>x2 - x1 * 100\<bar> \<le> (q + q * u) * 100 * u" .
  have "x2 - 100 * q = (x2 - x1 * 100) + 100 * (x1 - q)"
    by simp
  then have "\<bar>x2 - 100 * q\<bar> \<le> \<bar>x2 - x1 * 100\<bar> + \<bar>100 * (x1 - q)\<bar>"
    by (simp only: abs_triangle_ineq)
  also have "\<bar>100 * (x1 - q)\<bar> = 100 * \<bar>x1 - q\<bar>"
    by (subst abs_mult) simp
  finally have "\<bar>x2 - 100 * q\<bar> \<le> \<bar>x2 - x1 * 100\<bar> + 100 * \<bar>x1 - q\<bar>" .
  also have "\<dots> \<le> (q + q * u) * 100 * u + 100 * (q * u)"
    using e1 e2 by (intro add_mono mult_left_mono) simp_all
  also have "\<dots> = (100 * q) * (2 * u + u * u)"
    by (simp add: algebra_simps)
  also have "\<dots> \<le> (100 * q) * (1 / 2 ^ 51)"
    using assms u(2) by (intro mult_left_mono) simp_all
  finally show ?thesis
    by (simp add: x2_def x1_def)
qed

lemma Math_round_double_percent:
  assumes c: "0 \<le> c" "c \<le> t" and t: "0 < t" "t < 2 ^ 43"
  shows "Math_round (double (double (of_int c / of_int t) * 100)) = \<lfloor>100 * of_int c / of_int t + 1 / 2 :: rat\<rfloor> \<or>
         Math_round (double (double (of_int c / of_int t) * 100)) = \<lfloor>100 * of_int c / of_int t + 1 / 2 :: rat\<rfloor> - 1 \<and>
         of_int \<lfloor>100 * of_int c / of_int t + 1 / 2 :: rat\<rfloor> = (100 * of_int c / of_int t + 1 / 2 :: rat)"
proof -
  let ?T = "of_int t :: rat"
  let ?E = "100 * of_int c / ?T :: rat"
  let ?x = "double (double (of_int c / ?T) * 100)"
  let ?R = "\<lfloor>?E + 1 / 2\<rfloor>"
  define \<delta> :: rat where "\<delta> = 1 / 2 ^ 44"
  have T: "0 < ?T" using t by simp
  have q: "(0::rat) \<le> of_int c / ?T" using c t by simp
  have E100: "?E \<le> 100"
    using c t by (simp add: pos_divide_le_eq)
  have E0: "0 \<le> ?E" using c t by simp
  have "\<bar>?x - ?E\<bar> \<le> ?E / 2 ^ 51"
    using double_percent_error [OF q] by simp
  also have "\<dots> \<le> 100 / 2 ^ 51"
    using E100 by (simp add: divide_right_mono)
  also have "\<dots> < \<delta>" by (simp add: \<delta>_def)
  finally have err: "\<bar>?x - ?E\<bar> < \<delta>" .
  have gap: "\<delta> < 1 / (2 * ?T)"
  proof -
    have "?T < 2 ^ 43"
      using t(2) by (metis of_int_less_iff of_int_numeral of_int_power)
    then have "2 * ?T < 2 ^ 44" by simp
    then show ?thesis
      using T by (simp add: \<delta>_def field_simps)
  qed
  have R: "of_int ?R \<le> ?E + 1 / 2" "?E + 1 / 2 < of_int ?R + 1"
    by linarith+
  \<comment> \<open>the distances of the exact value from the two half-integers around it\<close>
  have up: "1 / (2 * ?T) \<le> of_int ?R + 1 / 2 - ?E"
  proof -
    let ?N = "(2 * ?R + 1) * t - 200 * c"
    have eq: "of_int ?R + 1 / 2 - ?E = of_int ?N / (2 * ?T)"
      using T by (simp add: field_simps)
    from R(2) have "0 < of_int ?R + 1 / 2 - ?E" by linarith
    with eq T have "(0::rat) < of_int ?N" by (simp add: zero_less_divide_iff)
    then have "1 \<le> ?N" by linarith
    then have "(1::rat) \<le> of_int ?N" by (metis of_int_1_le_iff)
    then show ?thesis
      unfolding eq using T by (simp add: divide_right_mono)
  qed
  have le: "Math_round ?x \<le> ?R"
  proof -
    from err have "?x < ?E + \<delta>" by linarith
    with gap up have "?x + 1 / 2 < of_int (?R + 1)" by simp
    then have "\<lfloor>?x + 1 / 2\<rfloor> < ?R + 1" by (simp only: floor_less_iff)
    then show ?thesis
      by (simp add: Math_round_def)
  qed
  have ge1: "?R - 1 \<le> Math_round ?x"
  proof -
    have "\<delta> < 1" by (simp add: \<delta>_def)
    moreover from err have "?E - \<delta> < ?x" by linarith
    ultimately have "of_int ?R - 1 \<le> ?x + 1 / 2" using R(1) by linarith
    then have "of_int (?R - 1) \<le> ?x + 1 / 2" by simp
    then have "?R - 1 \<le> \<lfloor>?x + 1 / 2\<rfloor>" by (simp only: le_floor_iff)
    then show ?thesis
      by (simp add: Math_round_def)
  qed
  show ?thesis
  proof (cases "of_int ?R = ?E + 1 / 2")
    case True
    with le ge1 show ?thesis by linarith
  next
    case False
    let ?M = "200 * c - (2 * ?R - 1) * t"
    have eq: "?E - (of_int ?R - 1 / 2) = of_int ?M / (2 * ?T)"
      using T by (simp add: field_simps)
    from R(1) False have "0 < ?E - (of_int ?R - 1 / 2)" by linarith
    with eq T have "(0::rat) < of_int ?M" by (simp add: zero_less_divide_iff)
    then have "1 \<le> ?M" by linarith
    then have "(1::rat) \<le> of_int ?M" by (metis of_int_1_le_iff)
    then have "1 / (2 * ?T) \<le> ?E - (of_int ?R - 1 / 2)"
      unfolding eq using T by (simp add: divide_right_mono)
    moreover from err have "?E - \<delta> < ?x" by linarith
    ultimately have "of_int ?R \<le> ?x + 1 / 2" using gap by linarith
    then have "?R \<le> \<lfloor>?x + 1 / 2\<rfloor>" by (simp only: le_floor_iff)
    then have "?R \<le> Math_round ?x"
      by (simp add: Math_round_def)
    with le show ?thesis by linarith
  qed
qed

lemma percentages_pos:
  "0 < c + j \<Longrightarrow>
   percentages c j =
     ensure100 c j (Math_round (double (double (of_int c / of_int (c + j)) * 100)))
                   (Math_round (double (double (of_int j / of_int (c + j)) * 100)))"
  by (simp add: percentages_def Let_def)

lemma percentages_1_7: "percentages 1 7 = (13, 87)"
  by code_simp

lemma percentages_29_171: "percentages 29 171 = (14, 86)"
  by code_simp

text \<open>
  C1 (as the handler has it). Whenever the Chad/Jeet handler answers with its success
  body, the two percentages of the body sum to exactly 100. With no votes at all both
  are 50. Otherwise (the counters being non-negative) the two rounded values are
  \<open>Math.round\<close> of the doubles \<open>(count / total) * 100\<close>. For a total below \<open>2^43\<close> such
  a rounded value is the rounding of the exact \<open>100 * count / total\<close>, except that where
  the exact value lies exactly halfway between two integers it may be one less (the
  double product can fall just below the half). When the two rounded values do not sum
  to 100 the side with the larger count becomes 100 minus the other side's rounded
  value, the chad side when the counts are equal.
\<close>

theorem recordProfileVote_percentages:
  assumes "recordProfileVote d profileId voteType = (d', Inr r)"
  shows "rChadPercentage r + rJeetPercentage r = 100 \<and>
         (rChadVotes r + rJeetVotes r = 0 \<longrightarrow> rChadPercentage r = 50 \<and> rJeetPercentage r = 50) \<and>
         (0 \<le> rChadVotes r \<and> 0 \<le> rJeetVotes r \<and> rChadVotes r + rJeetVotes r \<noteq> 0 \<longrightarrow>
            (let total = rChadVotes r + rJeetVotes r;
                 roundedChad = Math_round (double (double (of_int (rChadVotes r) / of_int total) * 100));
                 roundedJeet = Math_round (double (double (of_int (rJeetVotes r) / of_int total) * 100));
                 exactChad = \<lfloor>100 * of_int (rChadVotes r) / of_int total + 1 / 2 :: rat\<rfloor>;
                 exactJeet = \<lfloor>100 * of_int (rJeetVotes r) / of_int total + 1 / 2 :: rat\<rfloor>
             in (total < 2 ^ 43 \<longrightarrow>
                   (roundedChad = exactChad \<or>
                    roundedChad = exactChad - 1 \<and>
                    of_int exactChad = (100 * of_int (rChadVotes r) / of_int total + 1 / 2 :: rat)) \<and>
                   (roundedJeet = exactJeet \<or>
                    roundedJeet = exactJeet - 1 \<and>
                    of_int exactJeet = (100 * of_int (rJeetVotes r) / of_int total + 1 / 2 :: rat))) \<and>
                (roundedChad + roundedJeet = 100 \<longrightarrow>
                   rChadPercentage r = roundedChad \<and> rJeetPercentage r = roundedJeet) \<and>
                (roundedChad + roundedJeet \<noteq> 100 \<and> rChadVotes r \<ge> rJeetVotes r \<longrightarrow>
                   rChadPercentage r = 100 - roundedJeet \<and> rJeetPercentage r = roundedJeet) \<and>
                (roundedChad + roundedJeet \<noteq> 100 \<and> rChadVotes r < rJeetVotes r \<longrightarrow>
                   rChadPercentage r = roundedChad \<and> rJeetPercentage r = 100 - roundedChad)))"
    (is "?S \<and> ?Z \<and> (?H \<longrightarrow> ?P)")
proof -
  let ?c = "rChadVotes r" and ?j = "rJeetVotes r"
  have eq: "(rChadPercentage r, rJeetPercentage r) = percentages ?c ?j"
    using assms by (rule recordProfileVote_Inr)
  have s: ?S
    using percentages_sum [of ?c ?j] eq [symmetric] by simp
  have z: ?Z
    using eq percentages_zero [of ?c ?j] by auto
  have p: "?H \<longrightarrow> ?P"
  proof
    assume h: ?H
    then have pos: "0 < ?c + ?j" by linarith
    from percentages_pos [OF pos] eq
    have e: "(rChadPercentage r, rJeetPercentage r) =
            ensure100 ?c ?j (Math_round (double (double (of_int ?c / of_int (?c + ?j)) * 100)))
                            (Math_round (double (double (of_int ?j / of_int (?c + ?j)) * 100)))"
      by simp
    have rc: "Math_round (double (double (of_int ?c / of_int (?c + ?j)) * 100)) =
                \<lfloor>100 * of_int ?c / of_int (?c + ?j) + 1 / 2 :: rat\<rfloor> \<or>
              Math_round (double (double (of_int ?c / of_int (?c + ?j)) * 100)) =
                \<lfloor>100 * of_int ?c / of_int (?c + ?j) + 1 / 2 :: rat\<rfloor> - 1 \<and>
              of_int \<lfloor>100 * of_int ?c / of_int (?c + ?j) + 1 / 2 :: rat\<rfloor> =
                (100 * of_int ?c / of_int (?c + ?j) + 1 / 2 :: rat)"
      if "?c + ?j < 2 ^ 43"
      using h pos that by (intro Math_round_double_percent) simp_all
    have rj: "Math_round (double (double (of_int ?j / of_int (?c + ?j)) * 100)) =
                \<lfloor>100 * of_int ?j / of_int (?c + ?j) + 1 / 2 :: rat\<rfloor> \<or>
              Math_round (double (double (of_int ?j / of_int (?c + ?j)) * 100)) =
                \<lfloor>100 * of_int ?j / of_int (?c + ?j) + 1 / 2 :: rat\<rfloor> - 1 \<and>
              of_int \<lfloor>100 * of_int ?j / of_int (?c + ?j) + 1 / 2 :: rat\<rfloor> =
                (100 * of_int ?j / of_int (?c + ?j) + 1 / 2 :: rat)"
      if "?c + ?j < 2 ^ 43"
      using h pos that by (intro Math_round_double_percent) simp_all
    have corr: "(let roundedChad = Math_round (double (double (of_int ?c / of_int (?c + ?j)) * 100));
                     roundedJeet = Math_round (double (double (of_int ?j / of_int (?c + ?j)) * 100))
                 in (roundedChad + roundedJeet = 100 \<longrightarrow>
                       rChadPercentage r = roundedChad \<and> rJeetPercentage r = roundedJeet) \<and>
                    (roundedChad + roundedJeet \<noteq> 100 \<and> ?c \<ge> ?j \<longrightarrow>
                       rChadPercentage r = 100 - roundedJeet \<and> rJeetPercentage r = roundedJeet) \<and>
                    (roundedChad + roundedJeet \<noteq> 100 \<and> ?c < ?j \<longrightarrow>
                       rChadPercentage r = roundedChad \<and> rJeetPercentage r = 100 - roundedChad))"
      using e by (auto simp: ensure100_def Let_def split: if_splits)
    show ?P
      unfolding Let_def using rc rj corr [unfolded Let_def] by blast
  qed
  from s z p show ?thesis by blast
qed

theorem recordProfileVote_percentages_witness:
  "recordProfileVote
     \<lparr>Profile = [\<lparr>pid = 1, votes = 0, score = 0, battleWins = 0, battleLosses = 0,
                  votesHistory = [], chadVotes = 0, jeetVotes = 7\<rparr>], Vote = []\<rparr> 1 ''chad''
   = (\<lparr>Profile = [\<lparr>pid = 1, votes = 0, score = 0, battleWins = 0, battleLosses = 0,
                  votesHistory = [], chadVotes = 1, jeetVotes = 7\<rparr>], Vote = []\<rparr>,
      Inr \<lparr>rChadVotes = 1, rJeetVotes = 7, rChadPercentage = 13, rJeetPercentage = 87\<rparr>)
   \<and> (13::int) + 87 = 100
   \<and> (0::int) \<le> 1 \<and> (0::int) \<le> 7 \<and> (1::int) + 7 \<noteq> 0 \<and> (1::int) + 7 < 2 ^ 43
   \<and> Math_round (double (double (1 / 8) * 100)) = 13
   \<and> Math_round (double (double (7 / 8) * 100)) = 88
   \<and> \<lfloor>100 * 1 / 8 + 1 / 2 :: rat\<rfloor> = 13
   \<and> \<lfloor>100 * 7 / 8 + 1 / 2 :: rat\<rfloor> = 88"
proof -
  have h: "recordProfileVote
     \<lparr>Profile = [\<lparr>pid = 1, votes = 0, score = 0, battleWins = 0, battleLosses = 0,
                  votesHistory = [], chadVotes = 0, jeetVotes = 7\<rparr>], Vote = []\<rparr> 1 ''chad''
   = (\<lparr>Profile = [\<lparr>pid = 1, votes = 0, score = 0, battleWins = 0, battleLosses = 0,
                  votesHistory = [], chadVotes = 1, jeetVotes = 7\<rparr>], Vote = []\<rparr>,
      Inr \<lparr>rChadVotes = 1, rJeetVotes = 7, rChadPercentage = 13, rJeetPercentage = 87\<rparr>)"
    by (simp add: recordProfileVote_def findById_def percentages_1_7 Let_def)
  from recordProfileVote_percentages [OF h]
  have s: "rChadPercentage \<lparr>rChadVotes = 1, rJeetVotes = 7, rChadPercentage = 13, rJeetPercentage = 87\<rparr> +
           rJeetPercentage \<lparr>rChadVotes = 1, rJeetVotes = 7, rChadPercentage = 13, rJeetPercentage = 87\<rparr> = 100"
    by (rule conjunct1)
  have m: "Math_round (double (double (1 / 8) * 100)) = 13"
          "Math_round (double (double (7 / 8) * 100)) = 88"
    by code_simp+
  have e: "\<lfloor>100 * 1 / 8 + 1 / 2 :: rat\<rfloor> = 13" "\<lfloor>100 * 7 / 8 + 1 / 2 :: rat\<rfloor> = 88"
    by simp_all
  from h s m e show ?thesis by simp
qed

text \<open>
  With 29 chad votes and 171 jeet votes the exact percentages are 14.5 and 85.5, which
  round to 15 and 86; the double \<open>(29 / 200) * 100\<close> is \<open>14.499999999999998\<close> and rounds
  to 14, so the handler answers 14 and 86, with no correction, where the roundings of
  the exact values lead to 15 and 85.
\<close>

theorem recordProfileVote_percentages_counterexample:
  "recordProfileVote
     \<lparr>Profile = [\<lparr>pid = 1, votes = 0, score = 0, battleWins = 0, battleLosses = 0,
                  votesHistory = [], chadVotes = 28, jeetVotes = 171\<rparr>], Vote = []\<rparr> 1 ''chad''
   = (\<lparr>Profile = [\<lparr>pid = 1, votes = 0, score = 0, battleWins = 0, battleLosses = 0,
                  votesHistory = [], chadVotes = 29, jeetVotes = 171\<rparr>], Vote = []\<rparr>,
      Inr \<lparr>rChadVotes = 29, rJeetVotes = 171, rChadPercentage = 14, rJeetPercentage = 86\<rparr>)
   \<and> \<lfloor>100 * 29 / 200 + 1 / 2 :: rat\<rfloor> = 15
   \<and> \<lfloor>100 * 171 / 200 + 1 / 2 :: rat\<rfloor> = 86"
proof -
  have "\<lfloor>100 * 29 / 200 + 1 / 2 :: rat\<rfloor> = 15" "\<lfloor>100 * 171 / 200 + 1 / 2 :: rat\<rfloor> = 86"
    by simp_all
  then show ?thesis
    by (simp add: recordProfileVote_def findById_def percentages_29_171 Let_def)
qed

text \<open>
  C10. A Chad/Jeet vote on an existing profile whose \<open>voteType\<close> is neither \<open>'chad'\<close>
  nor \<open>'jeet'\<close> does not fail: the handler answers with its success body, the stored
  state is the one before the call, the body carries the unchanged \<open>chadVotes\<close> and
  \<open>jeetVotes\<close>, and the percentages are those computed from these unchanged counts.
\<close>

theorem recordProfileVote_other_voteType:
  assumes "findById (Profile d) profileId = Some p"
    and "voteType \<noteq> ''chad''" and "voteType \<noteq> ''jeet''"
  shows "recordProfileVote d profileId voteType =
           (d, Inr \<lparr>rChadVotes = chadVotes p, rJeetVotes = jeetVotes p,
                    rChadPercentage = fst (percentages (chadVotes p) (jeetVotes p)),
                    rJeetPercentage = snd (percentages (chadVotes p) (jeetVotes p))\<rparr>)"
proof -
  have "updateById profileId (\<lambda>q. q\<lparr>chadVotes := chadVotes p, jeetVotes := jeetVotes p\<rparr>) (Profile d)
        = Profile d"
    using assms(1) by (rule updateById_same) simp
  then show ?thesis
    using assms by (simp add: recordProfileVote_def Let_def split: prod.splits)
qed

lemma recordProfileVote_grow:
  "list_all2 (\<lambda>p p'. pid p' = pid p \<and> chadVotes p \<le> chadVotes p' \<and> jeetVotes p \<le> jeetVotes p')
     (Profile d) (Profile (fst (recordProfileVote d i vt)))"
proof (cases "findById (Profile d) i")
  case None
  then show ?thesis by (simp add: recordProfileVote_def list_all2_refl)
next
  case (Some p)
  show ?thesis
    using Some
    by (auto simp: recordProfileVote_def Let_def split: prod.splits intro!: list_all2_updateById)
qed

lemma recordProfileVotes_grow:
  "list_all2 (\<lambda>p p'. pid p' = pid p \<and> chadVotes p \<le> chadVotes p' \<and> jeetVotes p \<le> jeetVotes p')
     (Profile d) (Profile (recordProfileVotes d calls))"
proof (induction calls arbitrary: d)
  case Nil
  show ?case by (simp add: list_all2_refl)
next
  case (Cons call calls)
  obtain i vt where call: "call = (i, vt)" by (cases call)
  let ?R = "\<lambda>p p'. pid p' = pid p \<and> chadVotes p \<le> chadVotes p' \<and> jeetVotes p \<le> jeetVotes p'"
  have "list_all2 ?R (Profile d) (Profile (fst (recordProfileVote d i vt)))"
    by (rule recordProfileVote_grow)
  moreover have "list_all2 ?R (Profile (fst (recordProfileVote d i vt)))
      (Profile (recordProfileVotes (fst (recordProfileVote d i vt)) calls))"
    by (rule Cons.IH)
  ultimately have "list_all2 ?R (Profile d)
      (Profile (recordProfileVotes (fst (recordProfileVote d i vt)) calls))"
    by (rule list_all2_trans [rotated 1]) auto
  then show ?case
    unfolding call by simp
qed

lemma recordProfileVote_increment:
  assumes "findById (Profile d) i = Some p" and "vt = ''chad'' \<or> vt = ''jeet''"
  shows "\<exists>p'. findById (Profile (fst (recordProfileVote d i vt))) i = Some p' \<and>
           (chadVotes p' = chadVotes p + 1 \<and> jeetVotes p' = jeetVotes p \<or>
            chadVotes p' = chadVotes p \<and> jeetVotes p' = jeetVotes p + 1)"
  using assms findById_pid [OF assms(1)]
  by (auto simp: recordProfileVote_def Let_def findById_updateById split: prod.splits)

theorem recordProfileVote_other_voteType_witness:
  "findById (Profile \<lparr>Profile = [\<lparr>pid = 1, votes = 0, score = 0, battleWins = 0, battleLosses = 0,
                  votesHistory = [], chadVotes = 2, jeetVotes = 1\<rparr>], Vote = []\<rparr>) 1
     = Some \<lparr>pid = 1, votes = 0, score = 0, battleWins = 0, battleLosses = 0,
                  votesHistory = [], chadVotes = 2, jeetVotes = 1\<rparr>
   \<and> ''gigachad'' \<noteq> ''chad'' \<and> ''gigachad'' \<noteq> ''jeet''
   \<and> recordProfileVote
       \<lparr>Profile = [\<lparr>pid = 1, votes = 0, score = 0, battleWins = 0, battleLosses = 0,
                  votesHistory = [], chadVotes = 2, jeetVotes = 1\<rparr>], Vote = []\<rparr> 1 ''gigachad''
     = (\<lparr>Profile = [\<lparr>pid = 1, votes = 0, score = 0, battleWins = 0, battleLosses = 0,
                  votesHistory = [], chadVotes = 2, jeetVotes = 1\<rparr>], Vote = []\<rparr>,
        Inr \<lparr>rChadVotes = 2, rJeetVotes = 1, rChadPercentage = 67, rJeetPercentage = 33\<rparr>)"
proof -
  have h: "findById (Profile \<lparr>Profile = [\<lparr>pid = 1, votes = 0, score = 0, battleWins = 0,
                  battleLosses = 0, votesHistory = [], chadVotes = 2, jeetVotes = 1\<rparr>], Vote = []\<rparr>) 1
     = Some \<lparr>pid = 1, votes = 0, score = 0, battleWins = 0, battleLosses = 0,
                  votesHistory = [], chadVotes = 2, jeetVotes = 1\<rparr>"
    by (simp add: findById_def)
  have p: "percentages 2 1 = (67, 33)"
    by code_simp
  show ?thesis
    using h recordProfileVote_other_voteType [OF h, of "''gigachad''"] p
    by simp
qed

text \<open>
  C7. Across any sequence of Chad/Jeet votes (any profile ids, any \<open>voteType\<close> strings)
  every stored profile keeps its id, and its \<open>chadVotes\<close> and \<open>jeetVotes\<close> never
  decrease; a counter that was non-negative stays non-negative. A single call with
  \<open>voteType\<close> \<open>'chad'\<close> or \<open>'jeet'\<close> on an existing profile increments exactly one of
  the two counters by 1 and leaves the other as it was.
\<close>

theorem recordProfileVotes_counters:
  "list_all2 (\<lambda>p p'. pid p' = pid p \<and>
                chadVotes p \<le> chadVotes p' \<and> jeetVotes p \<le> jeetVotes p' \<and>
                (0 \<le> chadVotes p \<longrightarrow> 0 \<le> chadVotes p') \<and>
                (0 \<le> jeetVotes p \<longrightarrow> 0 \<le> jeetVotes p'))
     (Profile d) (Profile (recordProfileVotes d calls)) \<and>
   (findById (Profile d) profileId = Some p \<and> (voteType = ''chad'' \<or> voteType = ''jeet'') \<longrightarrow>
      (\<exists>p'. findById (Profile (fst (recordProfileVote d profileId voteType))) profileId = Some p' \<and>
            (chadVotes p' = chadVotes p + 1 \<and> jeetVotes p' = jeetVotes p \<or>
             chadVotes p' = chadVotes p \<and> jeetVotes p' = jeetVotes p + 1)))"
proof
  show "list_all2 (\<lambda>p p'. pid p' = pid p \<and>
                chadVotes p \<le> chadVotes p' \<and> jeetVotes p \<le> jeetVotes p' \<and>
                (0 \<le> chadVotes p \<longrightarrow> 0 \<le> chadVotes p') \<and>
                (0 \<le> jeetVotes p \<longrightarrow> 0 \<le> jeetVotes p'))
     (Profile d) (Profile (recordProfileVotes d calls))"
    by (rule list_all2_mono [OF recordProfileVotes_grow]) auto
  show "findById (Profile d) profileId = Some p \<and> (voteType = ''chad'' \<or> voteType = ''jeet'') \<longrightarrow>
      (\<exists>p'. findById (Profile (fst (recordProfileVote d profileId voteType))) profileId = Some p' \<and>
            (chadVotes p' = chadVotes p + 1 \<and> jeetVotes p' = jeetVotes p \<or>
             chadVotes p' = chadVotes p \<and> jeetVotes p' = jeetVotes p + 1))"
    using recordProfileVote_increment by blast
qed

theorem recordProfileVotes_counters_witness:
  "Profile (recordProfileVotes
      \<lparr>Profile = [\<lparr>pid = 1, votes = 0, score = 0, battleWins = 0, battleLosses = 0,
                   votesHistory = [], chadVotes = 0, jeetVotes = 0\<rparr>,
                  \<lparr>pid = 2, votes = 0, score = 0, battleWins = 0, battleLosses = 0,
                   votesHistory = [], chadVotes = 4, jeetVotes = 9\<rparr>], Vote = []\<rparr>
      [(1, ''chad''), (2, ''jeet''), (1, ''jeet''), (3, ''chad'')])
   = [\<lparr>pid = 1, votes = 0, score = 0, battleWins = 0, battleLosses = 0,
        votesHistory = [], chadVotes = 1, jeetVotes = 1\<rparr>,
      \<lparr>pid = 2, votes = 0, score = 0, battleWins = 0, battleLosses = 0,
        votesHistory = [], chadVotes = 4, jeetVotes = 10\<rparr>]
   \<and> findById (Profile (fst (recordProfileVote
      \<lparr>Profile = [\<lparr>pid = 1, votes = 0, score = 0, battleWins = 0, battleLosses = 0,
                   votesHistory = [], chadVotes = 0, jeetVotes = 0\<rparr>,
                  \<lparr>pid = 2, votes = 0, score = 0, battleWins = 0, battleLosses = 0,
                   votesHistory = [], chadVotes = 4, jeetVotes = 9\<rparr>], Vote = []\<rparr> 2 ''jeet''))) 2
     = Some \<lparr>pid = 2, votes = 0, score = 0, battleWins = 0, battleLosses = 0,
             votesHistory = [], chadVotes = 4, jeetVotes = 10\<rparr>"
  using recordProfileVotes_counters
     [of "\<lparr>Profile = [\<lparr>pid = 1, votes = 0, score = 0, battleWins = 0, battleLosses = 0,
                   votesHistory = [], chadVotes = 0, jeetVotes = 0\<rparr>,
                  \<lparr>pid = 2, votes = 0, score = 0, battleWins = 0, battleLosses = 0,
                   votesHistory = [], chadVotes = 4, jeetVotes = 9\<rparr>], Vote = []\<rparr>"
         "[(1, ''chad''), (2, ''jeet''), (1, ''jeet''), (3, ''chad'')]"
         2
         "\<lparr>pid = 2, votes = 0, score = 0, battleWins = 0, battleLosses = 0,
                   votesHistory = [], chadVotes = 4, jeetVotes = 9\<rparr>"
         "''jeet''"]
  by (simp add: recordProfileVote_def findById_def Let_def case_prod_beta)

section \<open>Properties of battle voting\<close>

lemma existingVote_None_iff:
  "existingVote vs now u w l = None \<longleftrightarrow> (\<forall>v\<in>set vs. \<not> recentVote now u w l v)"
  by (auto simp: existingVote_def find_None_iff)

lemma saveVote_simps [simp]:
  "Profile (saveVote d now u w l) = Profile d"
  "Vote (saveVote d now u w l) = Vote d @ [\<lparr>voterId = u, winnerId = w, loserId = l, timestamp = now\<rparr>]"
  by (simp_all add: saveVote_def)

lemma saveWinner_Vote [simp]: "Vote (saveWinner d now u p) = Vote d"
  by (simp add: saveWinner_def)

lemma saveLoser_Vote [simp]: "Vote (saveLoser d p) = Vote d"
  by (simp add: saveLoser_def)

lemma recordBattleVote_duplicate:
  "existingVote (Vote d) now u w l = Some v \<Longrightarrow> recordBattleVote d now u w l = (d, Inl DuplicateVote)"
  by (simp add: recordBattleVote_def)

lemma recordBattleVote_found:
  assumes "existingVote (Vote d) now u w l = None"
    and "findById (Profile d) w = Some pw" and "findById (Profile d) l = Some pl"
  shows "recordBattleVote d now u w l =
           (saveLoser (saveWinner (saveVote d now u w l) now u (applyWin now u pw)) (applyLoss pl),
            Inr (battleResponse (applyWin now u pw) (applyLoss pl)))"
  using assms by (simp add: recordBattleVote_def Let_def)

lemma recordBattleVote_missing:
  assumes "existingVote (Vote d) now u w l = None"
    and "findById (Profile d) w = None \<or> findById (Profile d) l = None"
  shows "recordBattleVote d now u w l = (saveVote d now u w l, Inl FailedToSubmitVote)"
  using assms by (auto simp: recordBattleVote_def Let_def split: option.splits)

lemma recordBattleVote_Inr_Vote:
  assumes "recordBattleVote d now u w l = (d', Inr r)"
  shows "Vote d' = Vote d @ [\<lparr>voterId = u, winnerId = w, loserId = l, timestamp = now\<rparr>]"
  using assms by (auto simp: recordBattleVote_def Let_def split: option.splits)

lemmas battle_defs =
  recordBattleVote_def existingVote_def recentVote_def saveVote_def findById_def
  applyWin_def applyLoss_def saveWinner_def saveLoser_def battleResponse_def Let_def

text \<open>
  C2. After a battle vote of voter \<open>V\<close> on \<open>A\<close> over \<open>B\<close> at time \<open>t\<close> has
  succeeded, a second vote of \<open>V\<close> on the same two profiles at a time \<open>t'\<close> with
  \<open>t' - t < 60000\<close> ms, in the order \<open>B, A\<close> or \<open>A, B\<close>, is answered with
  \<open>DuplicateVote\<close> and leaves the state as it is: the duplicate check matches the voter
  and the unordered pair within the window.
\<close>

theorem recordBattleVote_dedup:
  assumes "recordBattleVote d t V A B = (d1, Inr r)" and "t' - t < 60000"
  shows "recordBattleVote d1 t' V B A = (d1, Inl DuplicateVote) \<and>
         recordBattleVote d1 t' V A B = (d1, Inl DuplicateVote)"
proof -
  let ?rec = "\<lparr>voterId = V, winnerId = A, loserId = B, timestamp = t\<rparr>"
  have mem: "?rec \<in> set (Vote d1)"
    using recordBattleVote_Inr_Vote [OF assms(1)] by simp
  have "recentVote t' V B A ?rec" "recentVote t' V A B ?rec"
    using assms(2) by (simp_all add: recentVote_def)
  with mem have "existingVote (Vote d1) t' V B A \<noteq> None" "existingVote (Vote d1) t' V A B \<noteq> None"
    by (auto simp: existingVote_None_iff)
  then show ?thesis
    by (auto simp: recordBattleVote_duplicate)
qed

theorem recordBattleVote_dedup_witness:
  "recordBattleVote
     \<lparr>Profile = [\<lparr>pid = 1, votes = 0, score = 0, battleWins = 0, battleLosses = 0,
                  votesHistory = [], chadVotes = 0, jeetVotes = 0\<rparr>,
                 \<lparr>pid = 2, votes = 5, score = 7, battleWins = 5, battleLosses = 0,
                  votesHistory = [], chadVotes = 0, jeetVotes = 0\<rparr>], Vote = []\<rparr> 1000 7 1 2
   = (\<lparr>Profile = [\<lparr>pid = 1, votes = 1, score = 1, battleWins = 1, battleLosses = 0,
                  votesHistory = [\<lparr>hVoterId = 7, hTimestamp = 1000\<rparr>], chadVotes = 0, jeetVotes = 0\<rparr>,
                 \<lparr>pid = 2, votes = 5, score = 7, battleWins = 5, battleLosses = 1,
                  votesHistory = [], chadVotes = 0, jeetVotes = 0\<rparr>],
       Vote = [\<lparr>voterId = 7, winnerId = 1, loserId = 2, timestamp = 1000\<rparr>]\<rparr>,
      Inr \<lparr>winner_id = 1, winner_votes = 1, winner_score = 1,
           loser_id = 2, loser_votes = 5, loser_score = 7\<rparr>)
   \<and> (6000::int) - 1000 < 60000
   \<and> recordBattleVote
       \<lparr>Profile = [\<lparr>pid = 1, votes = 1, score = 1, battleWins = 1, battleLosses = 0,
                  votesHistory = [\<lparr>hVoterId = 7, hTimestamp = 1000\<rparr>], chadVotes = 0, jeetVotes = 0\<rparr>,
                 \<lparr>pid = 2, votes = 5, score = 7, battleWins = 5, battleLosses = 1,
                  votesHistory = [], chadVotes = 0, jeetVotes = 0\<rparr>],
       Vote = [\<lparr>voterId = 7, winnerId = 1, loserId = 2, timestamp = 1000\<rparr>]\<rparr> 6000 7 2 1
     = (\<lparr>Profile = [\<lparr>pid = 1, votes = 1, score = 1, battleWins = 1, battleLosses = 0,
                  votesHistory = [\<lparr>hVoterId = 7, hTimestamp = 1000\<rparr>], chadVotes = 0, jeetVotes = 0\<rparr>,
                 \<lparr>pid = 2, votes = 5, score = 7, battleWins = 5, battleLosses = 1,
                  votesHistory = [], chadVotes = 0, jeetVotes = 0\<rparr>],
       Vote = [\<lparr>voterId = 7, winnerId = 1, loserId = 2, timestamp = 1000\<rparr>]\<rparr>,
        Inl DuplicateVote)"
proof -
  have h: "recordBattleVote
     \<lparr>Profile = [\<lparr>pid = 1, votes = 0, score = 0, battleWins = 0, battleLosses = 0,
                  votesHistory = [], chadVotes = 0, jeetVotes = 0\<rparr>,
                 \<lparr>pid = 2, votes = 5, score = 7, battleWins = 5, battleLosses = 0,
                  votesHistory = [], chadVotes = 0, jeetVotes = 0\<rparr>], Vote = []\<rparr> 1000 7 1 2
   = (\<lparr>Profile = [\<lparr>pid = 1, votes = 1, score = 1, battleWins = 1, battleLosses = 0,
                  votesHistory = [\<lparr>hVoterId = 7, hTimestamp = 1000\<rparr>], chadVotes = 0, jeetVotes = 0\<rparr>,
                 \<lparr>pid = 2, votes = 5, score = 7, battleWins = 5, battleLosses = 1,
                  votesHistory = [], chadVotes = 0, jeetVotes = 0\<rparr>],
       Vote = [\<lparr>voterId = 7, winnerId = 1, loserId = 2, timestamp = 1000\<rparr>]\<rparr>,
      Inr \<lparr>winner_id = 1, winner_votes = 1, winner_score = 1,
           loser_id = 2, loser_votes = 5, loser_score = 7\<rparr>)"
    by (simp add: battle_defs)
  have w: "(6000::int) - 1000 < 60000" by simp
  show ?thesis
    using h w recordBattleVote_dedup [OF h w] by simp
qed

lemma recordBattleVote_distinct:
  assumes "findById (Profile d) wId = Some w" and "findById (Profile d) lId = Some l"
    and "wId \<noteq> lId" and "existingVote (Vote d) now userId wId lId = None"
  shows "snd (recordBattleVote d now userId wId lId) =
           Inr \<lparr>winner_id = wId, winner_votes = votes w + 1, winner_score = score w + 1,
                loser_id = lId, loser_votes = votes l, loser_score = score l\<rparr> \<and>
         Vote (fst (recordBattleVote d now userId wId lId)) =
           Vote d @ [\<lparr>voterId = userId, winnerId = wId, loserId = lId, timestamp = now\<rparr>] \<and>
         findById (Profile (fst (recordBattleVote d now userId wId lId))) wId =
           Some (w\<lparr>votes := votes w + 1, score := score w + 1, battleWins := battleWins w + 1,
                   votesHistory := votesHistory w @ [\<lparr>hVoterId = userId, hTimestamp = now\<rparr>]\<rparr>) \<and>
         findById (Profile (fst (recordBattleVote d now userId wId lId))) lId =
           Some (l\<lparr>battleLosses := battleLosses l + 1\<rparr>) \<and>
         (\<forall>k. k \<noteq> wId \<and> k \<noteq> lId \<longrightarrow>
            findById (Profile (fst (recordBattleVote d now userId wId lId))) k = findById (Profile d) k)"
proof -
  have pw: "pid w = wId" and pl: "pid l = lId"
    using assms(1,2) by (auto dest: findById_pid)
  note eq = recordBattleVote_found [OF assms(4) assms(1) assms(2)]
  show ?thesis
    using assms(1,2,3) pw pl
    by (simp add: eq saveWinner_def saveLoser_def applyWin_def applyLoss_def battleResponse_def
        findById_updateById findById_updateById_other)
qed

text \<open>
  C3 (as the handler has it). A battle vote on two existing, distinct profiles with no
  recent duplicate succeeds; exactly one vote record \<open>(userId, winnerId, loserId, now)\<close>
  is appended; the winner's \<open>votes\<close>, \<open>score\<close> and \<open>battleWins\<close> each grow by 1 and
  its \<open>votesHistory\<close> gains the entry \<open>(userId, now)\<close>; the loser's \<open>battleLosses\<close>
  grows by 1; every other profile is as before. The success body carries the winner's
  id, updated \<open>votes\<close> and updated \<open>score\<close>, and the loser's id, \<open>votes\<close> and \<open>score\<close>;
  the loser's \<open>battleLosses\<close> is not part of the body.
\<close>

theorem recordBattleVote_effect:
  assumes "findById (Profile d) wId = Some w" and "findById (Profile d) lId = Some l"
    and "wId \<noteq> lId" and "existingVote (Vote d) now userId wId lId = None"
  shows "snd (recordBattleVote d now userId wId lId) =
           Inr \<lparr>winner_id = wId, winner_votes = votes w + 1, winner_score = score w + 1,
                loser_id = lId, loser_votes = votes l, loser_score = score l\<rparr> \<and>
         Vote (fst (recordBattleVote d now userId wId lId)) =
           Vote d @ [\<lparr>voterId = userId, winnerId = wId, loserId = lId, timestamp = now\<rparr>] \<and>
         findById (Profile (fst (recordBattleVote d now userId wId lId))) wId =
           Some (w\<lparr>votes := votes w + 1, score := score w + 1, battleWins := battleWins w + 1,
                   votesHistory := votesHistory w @ [\<lparr>hVoterId = userId, hTimestamp = now\<rparr>]\<rparr>) \<and>
         findById (Profile (fst (recordBattleVote d now userId wId lId))) lId =
           Some (l\<lparr>battleLosses := battleLosses l + 1\<rparr>) \<and>
         (\<forall>k. k \<noteq> wId \<and> k \<noteq> lId \<longrightarrow>
            findById (Profile (fst (recordBattleVote d now userId wId lId))) k = findById (Profile d) k)"
  using assms by (rule recordBattleVote_distinct)

theorem recordBattleVote_effect_witness:
  "recordBattleVote
     \<lparr>Profile = [\<lparr>pid = 1, votes = 0, score = 0, battleWins = 0, battleLosses = 0,
                  votesHistory = [], chadVotes = 0, jeetVotes = 0\<rparr>,
                 \<lparr>pid = 2, votes = 5, score = 7, battleWins = 5, battleLosses = 3,
                  votesHistory = [], chadVotes = 0, jeetVotes = 0\<rparr>], Vote = []\<rparr> 1000 7 1 2
   = (\<lparr>Profile = [\<lparr>pid = 1, votes = 1, score = 1, battleWins = 1, battleLosses = 0,
                  votesHistory = [\<lparr>hVoterId = 7, hTimestamp = 1000\<rparr>], chadVotes = 0, jeetVotes = 0\<rparr>,
                 \<lparr>pid = 2, votes = 5, score = 7, battleWins = 5, battleLosses = 4,
                  votesHistory = [], chadVotes = 0, jeetVotes = 0\<rparr>],
       Vote = [\<lparr>voterId = 7, winnerId = 1, loserId = 2, timestamp = 1000\<rparr>]\<rparr>,
      Inr \<lparr>winner_id = 1, winner_votes = 1, winner_score = 1,
           loser_id = 2, loser_votes = 5, loser_score = 7\<rparr>)"
proof -
  let ?d = "\<lparr>Profile = [\<lparr>pid = 1, votes = 0, score = 0, battleWins = 0, battleLosses = 0,
                  votesHistory = [], chadVotes = 0, jeetVotes = 0\<rparr>,
                 \<lparr>pid = 2, votes = 5, score = 7, battleWins = 5, battleLosses = 3,
                  votesHistory = [], chadVotes = 0, jeetVotes = 0\<rparr>], Vote = []\<rparr>"
  have a: "findById (Profile ?d) 1 = Some \<lparr>pid = 1, votes = 0, score = 0, battleWins = 0,
             battleLosses = 0, votesHistory = [], chadVotes = 0, jeetVotes = 0\<rparr>"
    by (simp add: findById_def)
  have b: "findById (Profile ?d) 2 = Some \<lparr>pid = 2, votes = 5, score = 7, battleWins = 5,
             battleLosses = 3, votesHistory = [], chadVotes = 0, jeetVotes = 0\<rparr>"
    by (simp add: findById_def)
  have c: "(1::nat) \<noteq> 2" by simp
  have e: "existingVote (Vote ?d) 1000 7 1 2 = None"
    by (simp add: existingVote_def)
  have "snd (recordBattleVote ?d 1000 7 1 2) =
          Inr \<lparr>winner_id = 1, winner_votes = 1, winner_score = 1,
               loser_id = 2, loser_votes = 5, loser_score = 7\<rparr>"
    using recordBattleVote_effect [OF a b c e] by simp
  moreover have "fst (recordBattleVote ?d 1000 7 1 2) =
     \<lparr>Profile = [\<lparr>pid = 1, votes = 1, score = 1, battleWins = 1, battleLosses = 0,
                  votesHistory = [\<lparr>hVoterId = 7, hTimestamp = 1000\<rparr>], chadVotes = 0, jeetVotes = 0\<rparr>,
                 \<lparr>pid = 2, votes = 5, score = 7, battleWins = 5, battleLosses = 4,
                  votesHistory = [], chadVotes = 0, jeetVotes = 0\<rparr>],
       Vote = [\<lparr>voterId = 7, winnerId = 1, loserId = 2, timestamp = 1000\<rparr>]\<rparr>"
    by (simp add: battle_defs)
  ultimately show ?thesis
    by (simp add: prod_eq_iff)
qed

text \<open>
  The body does not determine the loser's \<open>battleLosses\<close>: two stores that differ only
  in that counter get the same body, while the updated counters are 1 and 4.
\<close>

theorem recordBattleVote_response_counterexample:
  "snd (recordBattleVote
     \<lparr>Profile = [\<lparr>pid = 1, votes = 0, score = 0, battleWins = 0, battleLosses = 0,
                  votesHistory = [], chadVotes = 0, jeetVotes = 0\<rparr>,
                 \<lparr>pid = 2, votes = 5, score = 7, battleWins = 5, battleLosses = 0,
                  votesHistory = [], chadVotes = 0, jeetVotes = 0\<rparr>], Vote = []\<rparr> 1000 7 1 2)
   = snd (recordBattleVote
     \<lparr>Profile = [\<lparr>pid = 1, votes = 0, score = 0, battleWins = 0, battleLosses = 0,
                  votesHistory = [], chadVotes = 0, jeetVotes = 0\<rparr>,
                 \<lparr>pid = 2, votes = 5, score = 7, battleWins = 5, battleLosses = 3,
                  votesHistory = [], chadVotes = 0, jeetVotes = 0\<rparr>], Vote = []\<rparr> 1000 7 1 2)
   \<and> map battleLosses (Profile (fst (recordBattleVote
     \<lparr>Profile = [\<lparr>pid = 1, votes = 0, score = 0, battleWins = 0, battleLosses = 0,
                  votesHistory = [], chadVotes = 0, jeetVotes = 0\<rparr>,
                 \<lparr>pid = 2, votes = 5, score = 7, battleWins = 5, battleLosses = 0,
                  votesHistory = [], chadVotes = 0, jeetVotes = 0\<rparr>], Vote = []\<rparr> 1000 7 1 2)))
     = [0, 1]
   \<and> map battleLosses (Profile (fst (recordBattleVote
     \<lparr>Profile = [\<lparr>pid = 1, votes = 0, score = 0, battleWins = 0, battleLosses = 0,
                  votesHistory = [], chadVotes = 0, jeetVotes = 0\<rparr>,
                 \<lparr>pid = 2, votes = 5, score = 7, battleWins = 5, battleLosses = 3,
                  votesHistory = [], chadVotes = 0, jeetVotes = 0\<rparr>], Vote = []\<rparr> 1000 7 1 2)))
     = [0, 4]"
  by (simp add: battle_defs)

text \<open>
  C4 (as the handler has it). The handler does not compare \<open>winnerId\<close> with \<open>loserId\<close>.
  A vote naming the same existing profile on both sides, with no recent duplicate,
  succeeds: the record \<open>(userId, a, a, now)\<close> is appended and the profile's \<open>votes\<close>,
  \<open>score\<close>, \<open>battleWins\<close> and \<open>battleLosses\<close> each grow by 1 (the two in-memory copies
  are saved one after the other, each writing the paths it modified). The loser half of
  the body is read from the copy loaded before the saves.
\<close>

theorem recordBattleVote_same_profile:
  assumes "findById (Profile d) a = Some p"
    and "existingVote (Vote d) now userId a a = None"
  shows "snd (recordBattleVote d now userId a a) =
           Inr \<lparr>winner_id = a, winner_votes = votes p + 1, winner_score = score p + 1,
                loser_id = a, loser_votes = votes p, loser_score = score p\<rparr> \<and>
         Vote (fst (recordBattleVote d now userId a a)) =
           Vote d @ [\<lparr>voterId = userId, winnerId = a, loserId = a, timestamp = now\<rparr>] \<and>
         findById (Profile (fst (recordBattleVote d now userId a a))) a =
           Some (p\<lparr>votes := votes p + 1, score := score p + 1, battleWins := battleWins p + 1,
                   battleLosses := battleLosses p + 1,
                   votesHistory := votesHistory p @ [\<lparr>hVoterId = userId, hTimestamp = now\<rparr>]\<rparr>)"
proof -
  have pa: "pid p = a"
    using assms(1) by (rule findById_pid)
  note eq = recordBattleVote_found [OF assms(2) assms(1) assms(1)]
  show ?thesis
    using assms(1) pa
    by (simp add: eq saveWinner_def saveLoser_def applyWin_def applyLoss_def battleResponse_def
        findById_updateById)
qed

theorem recordBattleVote_same_profile_witness:
  "findById (Profile \<lparr>Profile = [\<lparr>pid = 1, votes = 4, score = 6, battleWins = 4, battleLosses = 2,
                  votesHistory = [], chadVotes = 0, jeetVotes = 0\<rparr>], Vote = []\<rparr>) 1
     = Some \<lparr>pid = 1, votes = 4, score = 6, battleWins = 4, battleLosses = 2,
                  votesHistory = [], chadVotes = 0, jeetVotes = 0\<rparr>
   \<and> existingVote (Vote \<lparr>Profile = [\<lparr>pid = 1, votes = 4, score = 6, battleWins = 4, battleLosses = 2,
                  votesHistory = [], chadVotes = 0, jeetVotes = 0\<rparr>], Vote = []\<rparr>) 1000 7 1 1 = None
   \<and> snd (recordBattleVote \<lparr>Profile = [\<lparr>pid = 1, votes = 4, score = 6, battleWins = 4,
                  battleLosses = 2, votesHistory = [], chadVotes = 0, jeetVotes = 0\<rparr>], Vote = []\<rparr>
           1000 7 1 1)
     = Inr \<lparr>winner_id = 1, winner_votes = 5, winner_score = 7,
            loser_id = 1, loser_votes = 4, loser_score = 6\<rparr>"
proof -
  let ?d = "\<lparr>Profile = [\<lparr>pid = 1, votes = 4, score = 6, battleWins = 4, battleLosses = 2,
                  votesHistory = [], chadVotes = 0, jeetVotes = 0\<rparr>], Vote = []\<rparr>"
  have a: "findById (Profile ?d) 1 = Some \<lparr>pid = 1, votes = 4, score = 6, battleWins = 4,
             battleLosses = 2, votesHistory = [], chadVotes = 0, jeetVotes = 0\<rparr>"
    by (simp add: findById_def)
  have e: "existingVote (Vote ?d) 1000 7 1 1 = None"
    by (simp add: existingVote_def)
  show ?thesis
    using a e recordBattleVote_same_profile [OF a e] by simp
qed

text \<open>
  The call with \<open>winnerId = loserId = 1\<close> is answered with the success body; a record is
  appended and four counters change.
\<close>

theorem recordBattleVote_same_profile_counterexample:
  "recordBattleVote
     \<lparr>Profile = [\<lparr>pid = 1, votes = 0, score = 0, battleWins = 0, battleLosses = 0,
                  votesHistory = [], chadVotes = 0, jeetVotes = 0\<rparr>], Vote = []\<rparr> 1000 7 1 1
   = (\<lparr>Profile = [\<lparr>pid = 1, votes = 1, score = 1, battleWins = 1, battleLosses = 1,
                  votesHistory = [\<lparr>hVoterId = 7, hTimestamp = 1000\<rparr>], chadVotes = 0, jeetVotes = 0\<rparr>],
       Vote = [\<lparr>voterId = 7, winnerId = 1, loserId = 1, timestamp = 1000\<rparr>]\<rparr>,
      Inr \<lparr>winner_id = 1, winner_votes = 1, winner_score = 1,
           loser_id = 1, loser_votes = 0, loser_score = 0\<rparr>)"
  by (simp add: battle_defs)

text \<open>
  C5 (the handler at a missing profile). With profile 1 stored and no profile 2, the vote
  of user 7 on 1 over 2 appends its vote record first, finds no loser, skips the counter
  updates, and fails while building the response: the answer is
  \<open>500 'Failed to submit vote'\<close>, not \<open>ProfileNotFound\<close>, and the store keeps a vote
  record that no counter reflects.
\<close>

theorem recordBattleVote_missing_profile:
  "recordBattleVote
     \<lparr>Profile = [\<lparr>pid = 1, votes = 0, score = 0, battleWins = 0, battleLosses = 0,
                  votesHistory = [], chadVotes = 0, jeetVotes = 0\<rparr>], Vote = []\<rparr> 1000 7 1 2
   = (\<lparr>Profile = [\<lparr>pid = 1, votes = 0, score = 0, battleWins = 0, battleLosses = 0,
                  votesHistory = [], chadVotes = 0, jeetVotes = 0\<rparr>],
       Vote = [\<lparr>voterId = 7, winnerId = 1, loserId = 2, timestamp = 1000\<rparr>]\<rparr>,
      Inl FailedToSubmitVote)"
  by (simp add: battle_defs)

section \<open>Battle votes in flight together\<close>

lemma battleStep_run:
  "(battleStep now u w l ^^ 6) (d, Start) =
     (fst (recordBattleVote d now u w l), Finished (snd (recordBattleVote d now u w l)))"
  by (simp add: eval_nat_numeral recordBattleVote_def Let_def split: option.splits)

lemma interleave_first:
  "interleave (n1, u1, w1, l1) r2 (replicate k False) (d, t1, t2) =
     (fst ((battleStep n1 u1 w1 l1 ^^ k) (d, t1)), snd ((battleStep n1 u1 w1 l1 ^^ k) (d, t1)), t2)"
proof (induction k arbitrary: d t1)
  case 0
  show ?case by simp
next
  case (Suc k)
  show ?case
    by (simp add: Suc.IH funpow_swap1 split: prod.splits)
qed

lemma interleave_second:
  "interleave r1 (n2, u2, w2, l2) (replicate k True) (d, t1, t2) =
     (fst ((battleStep n2 u2 w2 l2 ^^ k) (d, t2)), t1, snd ((battleStep n2 u2 w2 l2 ^^ k) (d, t2)))"
proof (induction k arbitrary: d t2)
  case 0
  show ?case by simp
next
  case (Suc k)
  obtain n1 u1 w1 l1 where r1: "r1 = (n1, u1, w1, l1)" by (cases r1)
  show ?case
    by (simp add: r1 Suc.IH [unfolded r1] funpow_swap1 split: prod.splits)
qed

lemma interleave_append:
  "interleave r1 r2 (xs @ ys) s = interleave r1 r2 ys (interleave r1 r2 xs s)"
proof (induction xs arbitrary: s)
  case Nil
  show ?case by simp
next
  case (Cons x xs)
  obtain n1 u1 w1 l1 where r1: "r1 = (n1, u1, w1, l1)" by (cases r1)
  obtain n2 u2 w2 l2 where r2: "r2 = (n2, u2, w2, l2)" by (cases r2)
  obtain d t1 t2 where s: "s = (d, t1, t2)" by (cases s)
  show ?case
    using Cons.IH by (cases x) (simp_all add: r1 r2 s split: prod.splits)
qed

lemma interleave_sequential:
  "interleave (n1, u1, w1, l1) (n2, u2, w2, l2) (replicate 6 False @ replicate 6 True) (d, Start, Start) =
     (fst (recordBattleVote (fst (recordBattleVote d n1 u1 w1 l1)) n2 u2 w2 l2),
      Finished (snd (recordBattleVote d n1 u1 w1 l1)),
      Finished (snd (recordBattleVote (fst (recordBattleVote d n1 u1 w1 l1)) n2 u2 w2 l2)))"
  by (simp only: interleave_append interleave_first interleave_second battleStep_run fst_conv snd_conv)

lemma AInv_stage: "AInv v0 c1 c2 s k1 h1 k2 h2 \<Longrightarrow> k1 = min 6 c1 \<and> k2 = min 6 c2"
  by (simp add: AInv_def)

lemma AInv_step1:
  assumes inv: "AInv v0 c1 c2 s k1 h1 k2 h2"
  shows "AInv v0 (Suc c1) c2 (if k1 = 4 then h1 + 1 else s) (min 6 (Suc k1)) (if k1 = 2 then s else h1) k2 h2 \<and>
         (flag v0 (min 6 (Suc k1)) (if k1 = 2 then s else h1) k2 h2 \<longleftrightarrow>
          flag v0 k1 h1 k2 h2 \<or> c1 = 2 \<and> 5 \<le> c2)"
proof -
  from AInv_stage [OF inv] have K1: "k1 = min 6 c1" and K2: "k2 = min 6 c2" by simp_all
  have c2: "5 \<le> c2 \<longleftrightarrow> 5 \<le> k2" using K2 by (simp add: min_def)
  from K1 have "k1 \<le> 6" by simp
  then consider "k1 = 0" | "k1 = 1" | "k1 = 2" | "k1 = 3" | "k1 = 4" | "k1 = 5" | "k1 = 6"
    by linarith
  then show ?thesis
  proof cases
    case 1
    with K1 have "c1 = 0" by (simp add: min_def split: if_splits)
    with 1 inv c2 show ?thesis by (simp add: AInv_def flag_def)
  next
    case 2
    with K1 have "c1 = 1" by (simp add: min_def split: if_splits)
    with 2 inv c2 show ?thesis by (simp add: AInv_def flag_def)
  next
    case 3
    with K1 have "c1 = 2" by (simp add: min_def split: if_splits)
    with 3 inv c2 show ?thesis
      by (cases "5 \<le> k2") (auto simp: AInv_def flag_def)
  next
    case 4
    with K1 have "c1 = 3" by (simp add: min_def split: if_splits)
    with 4 inv c2 show ?thesis by (simp add: AInv_def flag_def)
  next
    case 5
    with K1 have "c1 = 4" by (simp add: min_def split: if_splits)
    with 5 inv c2 show ?thesis
      by (cases "5 \<le> k2") (auto simp: AInv_def flag_def)
  next
    case 6
    with K1 have "c1 = 5" by (simp add: min_def split: if_splits)
    with 6 inv c2 show ?thesis by (simp add: AInv_def flag_def)
  next
    case 7
    with K1 have "6 \<le> c1" by (simp add: min_def split: if_splits)
    with 7 inv c2 show ?thesis by (simp add: AInv_def flag_def)
  qed
qed

lemma AInv_swap: "AInv v0 c1 c2 s k1 h1 k2 h2 \<longleftrightarrow> AInv v0 c2 c1 s k2 h2 k1 h1"
  by (auto simp: AInv_def max.commute)

lemma flag_swap: "flag v0 k1 h1 k2 h2 \<longleftrightarrow> flag v0 k2 h2 k1 h1"
  by (auto simp: flag_def)

lemma AInv_step2:
  assumes "AInv v0 c1 c2 s k1 h1 k2 h2"
  shows "AInv v0 c1 (Suc c2) (if k2 = 4 then h2 + 1 else s) k1 h1 (min 6 (Suc k2)) (if k2 = 2 then s else h2) \<and>
         (flag v0 k1 h1 (min 6 (Suc k2)) (if k2 = 2 then s else h2) \<longleftrightarrow>
          flag v0 k1 h1 k2 h2 \<or> c2 = 2 \<and> 5 \<le> c1)"
  using AInv_step1 [of v0 c2 c1 s k2 h2 k1 h1] assms
  by (simp only: AInv_swap [of v0 c1] flag_swap [of v0 k1])

lemma AInv_final:
  assumes "AInv v0 c1 c2 s k1 h1 k2 h2" and "6 \<le> c1" and "6 \<le> c2"
  shows "s = v0 + (if flag v0 k1 h1 k2 h2 then 2 else 1)"
proof -
  from AInv_stage [OF assms(1)] assms(2,3) have "k1 = 6" "k2 = 6" by simp_all
  with assms(1) show ?thesis
    by (auto simp: AInv_def flag_def)
qed

lemma findById_updateById_None:
  "(\<And>q. pid (delta q) = pid q) \<Longrightarrow>
   findById (updateById i delta ps) k = None \<longleftrightarrow> findById ps k = None"
  by (induction ps) (auto simp: findById_def split: if_splits)

lemma existingVote_append_other:
  "u' \<noteq> u \<Longrightarrow> existingVote vs now' u' w' l' = None \<Longrightarrow>
   existingVote (vs @ [\<lparr>voterId = u, winnerId = w, loserId = l, timestamp = now\<rparr>]) now' u' w' l' = None"
  by (auto simp: existingVote_None_iff recentVote_def)

lemma dbOK_saveWinner:
  assumes "dbOK w l1 l2 s d" and "pid a = w"
  shows "dbOK w l1 l2 (votes a) (saveWinner d now u a)"
proof -
  from assms(1) obtain q where q: "findById (Profile d) w = Some q"
    by (auto simp: dbOK_def)
  have "pid q = w" using q by (rule findById_pid)
  then show ?thesis
    using assms q
    by (simp add: dbOK_def saveWinner_def findById_updateById findById_updateById_None)
qed

lemma dbOK_saveLoser:
  assumes "dbOK w l1 l2 s d" and "pid b \<noteq> w"
  shows "dbOK w l1 l2 s (saveLoser d b)"
  using assms
  by (simp add: dbOK_def saveLoser_def findById_updateById_other findById_updateById_None)

lemma battleStep_sim:
  assumes ok: "dbOK w l1 l2 s d" and wf: "wellFormed w l t" and l: "l = l1 \<or> l = l2"
    and ne: "w \<noteq> l" and nodup: "t = Start \<longrightarrow> existingVote (Vote d) now u w l = None"
  shows "wellFormed w l (snd (battleStep now u w l (d, t))) \<and>
         stage (snd (battleStep now u w l (d, t))) = min 6 (Suc (stage t)) \<and>
         held (snd (battleStep now u w l (d, t))) = (if stage t = 2 then s else held t) \<and>
         dbOK w l1 l2 (if stage t = 4 then held t + 1 else s) (fst (battleStep now u w l (d, t))) \<and>
         (\<forall>now' u' w' l'. u' \<noteq> u \<longrightarrow> existingVote (Vote d) now' u' w' l' = None \<longrightarrow>
            existingVote (Vote (fst (battleStep now u w l (d, t)))) now' u' w' l' = None)"
proof (cases t)
  case Start
  with nodup ok show ?thesis by (simp add: wellFormed_def)
next
  case Checked
  with ok show ?thesis
    by (simp add: wellFormed_def dbOK_def existingVote_append_other)
next
  case VoteSaved
  from ok obtain q where q: "findById (Profile d) w = Some q" "votes q = s"
    by (auto simp: dbOK_def)
  have "pid q = w" using q(1) by (rule findById_pid)
  with VoteSaved q ok show ?thesis by (simp add: wellFormed_def)
next
  case (WinnerFound x)
  with wf obtain q where x: "x = Some q" "pid q = w"
    by (auto simp: wellFormed_def split: option.splits)
  from ok l obtain p where p: "findById (Profile d) l = Some p"
    by (auto simp: dbOK_def)
  have "pid p = l" using p by (rule findById_pid)
  with WinnerFound x p ok show ?thesis
    by (simp add: wellFormed_def applyWin_def applyLoss_def)
next
  case (Loaded a b)
  with wf have ab: "pid a = w" "pid b = l" by (simp_all add: wellFormed_def)
  from dbOK_saveWinner [OF ok ab(1)] Loaded ab show ?thesis
    by (simp add: wellFormed_def)
next
  case (WinnerSaved a b)
  with wf have ab: "pid a = w" "pid b = l" by (simp_all add: wellFormed_def)
  with ne have "pid b \<noteq> w" by simp
  from dbOK_saveLoser [OF ok this] WinnerSaved ab show ?thesis
    by (simp add: wellFormed_def battleResponse_def)
next
  case (Finished r)
  with wf obtain x where "r = Inr x" by (auto simp: wellFormed_def split: sum.splits)
  with Finished ok show ?thesis by (simp add: wellFormed_def)
qed

lemma stage_Start: "stage t = 0 \<longleftrightarrow> t = Start"
  by (cases t) simp_all

lemma interleave_inv:
  assumes static: "w \<noteq> l1" "w \<noteq> l2" "u1 \<noteq> u2"
  shows "dbOK w l1 l2 s d \<Longrightarrow> wellFormed w l1 t1 \<Longrightarrow> wellFormed w l2 t2 \<Longrightarrow>
     (t1 = Start \<longrightarrow> existingVote (Vote d) n1 u1 w l1 = None) \<Longrightarrow>
     (t2 = Start \<longrightarrow> existingVote (Vote d) n2 u2 w l2 = None) \<Longrightarrow>
     AInv v0 c1 c2 s (stage t1) (held t1) (stage t2) (held t2) \<Longrightarrow>
     \<exists>d' t1' t2' s'.
        interleave (n1, u1, w, l1) (n2, u2, w, l2) sched (d, t1, t2) = (d', t1', t2') \<and>
        dbOK w l1 l2 s' d' \<and> wellFormed w l1 t1' \<and> wellFormed w l2 t2' \<and>
        AInv v0 (c1 + count_list sched False) (c2 + count_list sched True) s'
          (stage t1') (held t1') (stage t2') (held t2') \<and>
        (flag v0 (stage t1') (held t1') (stage t2') (held t2') \<longleftrightarrow>
           flag v0 (stage t1) (held t1) (stage t2) (held t2) \<or> loadsAfterSave c1 c2 sched)"
proof (induction sched arbitrary: d t1 t2 s c1 c2)
  case Nil
  then show ?case by auto
next
  case (Cons x sched)
  show ?case
  proof (cases x)
    case False
    let ?r = "battleStep n1 u1 w l1 (d, t1)"
    let ?s = "if stage t1 = 4 then held t1 + 1 else s"
    note sim = battleStep_sim [OF Cons.prems(1) Cons.prems(2) disjI1 [OF refl] static(1) Cons.prems(4)]
    from sim have wf1: "wellFormed w l1 (snd ?r)"
      and st: "stage (snd ?r) = min 6 (Suc (stage t1))"
      and he: "held (snd ?r) = (if stage t1 = 2 then s else held t1)"
      and ok: "dbOK w l1 l2 ?s (fst ?r)"
      and ex: "\<forall>now' u' w' l'. u' \<noteq> u1 \<longrightarrow> existingVote (Vote d) now' u' w' l' = None \<longrightarrow>
            existingVote (Vote (fst ?r)) now' u' w' l' = None"
      by blast+
    have e1: "snd ?r = Start \<longrightarrow> existingVote (Vote (fst ?r)) n1 u1 w l1 = None"
      using st by (auto simp: stage_Start [symmetric])
    have e2: "t2 = Start \<longrightarrow> existingVote (Vote (fst ?r)) n2 u2 w l2 = None"
      using ex [rule_format, of u2 n2 w l2] Cons.prems(5) static(3) by auto
    from AInv_step1 [OF Cons.prems(6)]
    have inv: "AInv v0 (Suc c1) c2 ?s (stage (snd ?r)) (held (snd ?r)) (stage t2) (held t2)"
      and fl: "flag v0 (stage (snd ?r)) (held (snd ?r)) (stage t2) (held t2) \<longleftrightarrow>
               flag v0 (stage t1) (held t1) (stage t2) (held t2) \<or> c1 = 2 \<and> 5 \<le> c2"
      by (simp_all only: st he)
    from Cons.IH [OF ok wf1 Cons.prems(3) e1 e2 inv]
    obtain d' t1' t2' s' where
      run: "interleave (n1, u1, w, l1) (n2, u2, w, l2) sched (fst ?r, snd ?r, t2) = (d', t1', t2')"
      and rest: "dbOK w l1 l2 s' d'" "wellFormed w l1 t1'" "wellFormed w l2 t2'"
        "AInv v0 (Suc c1 + count_list sched False) (c2 + count_list sched True) s'
          (stage t1') (held t1') (stage t2') (held t2')"
        "flag v0 (stage t1') (held t1') (stage t2') (held t2') \<longleftrightarrow>
           flag v0 (stage (snd ?r)) (held (snd ?r)) (stage t2) (held t2) \<or> loadsAfterSave (Suc c1) c2 sched"
      by blast
    have "interleave (n1, u1, w, l1) (n2, u2, w, l2) (x # sched) (d, t1, t2) = (d', t1', t2')"
      using run False by (simp add: case_prod_beta)
    moreover have "AInv v0 (c1 + count_list (x # sched) False) (c2 + count_list (x # sched) True) s'
          (stage t1') (held t1') (stage t2') (held t2')"
      using rest(4) False by simp
    moreover have "flag v0 (stage t1') (held t1') (stage t2') (held t2') \<longleftrightarrow>
           flag v0 (stage t1) (held t1) (stage t2) (held t2) \<or> loadsAfterSave c1 c2 (x # sched)"
      using rest(5) fl False by auto
    ultimately show ?thesis
      using rest(1-3) by blast
  next
    case True
    let ?r = "battleStep n2 u2 w l2 (d, t2)"
    let ?s = "if stage t2 = 4 then held t2 + 1 else s"
    note sim = battleStep_sim [OF Cons.prems(1) Cons.prems(3) disjI2 [OF refl] static(2) Cons.prems(5)]
    from sim have wf2: "wellFormed w l2 (snd ?r)"
      and st: "stage (snd ?r) = min 6 (Suc (stage t2))"
      and he: "held (snd ?r) = (if stage t2 = 2 then s else held t2)"
      and ok: "dbOK w l1 l2 ?s (fst ?r)"
      and ex: "\<forall>now' u' w' l'. u' \<noteq> u2 \<longrightarrow> existingVote (Vote d) now' u' w' l' = None \<longrightarrow>
            existingVote (Vote (fst ?r)) now' u' w' l' = None"
      by blast+
    have e2: "snd ?r = Start \<longrightarrow> existingVote (Vote (fst ?r)) n2 u2 w l2 = None"
      using st by (auto simp: stage_Start [symmetric])
    have e1: "t1 = Start \<longrightarrow> existingVote (Vote (fst ?r)) n1 u1 w l1 = None"
      using ex [rule_format, of u1 n1 w l1] Cons.prems(4) static(3) by auto
    from AInv_step2 [OF Cons.prems(6)]
    have inv: "AInv v0 c1 (Suc c2) ?s (stage t1) (held t1) (stage (snd ?r)) (held (snd ?r))"
      and fl: "flag v0 (stage t1) (held t1) (stage (snd ?r)) (held (snd ?r)) \<longleftrightarrow>
               flag v0 (stage t1) (held t1) (stage t2) (held t2) \<or> c2 = 2 \<and> 5 \<le> c1"
      by (simp_all only: st he)
    from Cons.IH [OF ok Cons.prems(2) wf2 e1 e2 inv]
    obtain d' t1' t2' s' where
      run: "interleave (n1, u1, w, l1) (n2, u2, w, l2) sched (fst ?r, t1, snd ?r) = (d', t1', t2')"
      and rest: "dbOK w l1 l2 s' d'" "wellFormed w l1 t1'" "wellFormed w l2 t2'"
        "AInv v0 (c1 + count_list sched False) (Suc c2 + count_list sched True) s'
          (stage t1') (held t1') (stage t2') (held t2')"
        "flag v0 (stage t1') (held t1') (stage t2') (held t2') \<longleftrightarrow>
           flag v0 (stage t1) (held t1) (stage (snd ?r)) (held (snd ?r)) \<or> loadsAfterSave c1 (Suc c2) sched"
      by blast
    have "interleave (n1, u1, w, l1) (n2, u2, w, l2) (x # sched) (d, t1, t2) = (d', t1', t2')"
      using run True by (simp add: case_prod_beta)
    moreover have "AInv v0 (c1 + count_list (x # sched) False) (c2 + count_list (x # sched) True) s'
          (stage t1') (held t1') (stage t2') (held t2')"
      using rest(4) True by simp
    moreover have "flag v0 (stage t1') (held t1') (stage t2') (held t2') \<longleftrightarrow>
           flag v0 (stage t1) (held t1) (stage t2) (held t2) \<or> loadsAfterSave c1 c2 (x # sched)"
      using rest(5) fl True by auto
    ultimately show ?thesis
      using rest(1-3) by blast
  qed
qed

lemma stage_Finished: "stage t = 6 \<Longrightarrow> wellFormed w l t \<Longrightarrow> \<exists>r. t = Finished (Inr r)"
  by (cases t) (auto simp: wellFormed_def split: sum.splits)

lemma loadsAfterSave_sequential: "loadsAfterSave 0 0 (replicate 6 False @ replicate 6 True)"
  by (simp add: eval_nat_numeral)

text \<open>
  C9 (as the handler has it). Two battle votes from different voters name the same
  existing winner, each with an existing loser other than the winner and no recent
  duplicate. Whatever the order in which the two handlers take their steps, once both
  have run to completion both have succeeded. The winner's \<open>votes\<close> ends exactly 2
  higher when one handler loaded the winner after the other had saved it, and exactly
  1 higher when both loaded it before either saved: the counter is written back as the
  value read plus 1, it is not incremented in the store.
\<close>

theorem interleave_votes:
  assumes "findById (Profile d) w = Some pw"
    and "findById (Profile d) l1 = Some p1" and "findById (Profile d) l2 = Some p2"
    and "w \<noteq> l1" and "w \<noteq> l2" and "u1 \<noteq> u2"
    and "existingVote (Vote d) n1 u1 w l1 = None"
    and "existingVote (Vote d) n2 u2 w l2 = None"
    and "6 \<le> count_list sched False" and "6 \<le> count_list sched True"
  shows "\<exists>d' r1 r2 pw'.
           interleave (n1, u1, w, l1) (n2, u2, w, l2) sched (d, Start, Start) =
             (d', Finished (Inr r1), Finished (Inr r2)) \<and>
           findById (Profile d') w = Some pw' \<and>
           votes pw' = votes pw + (if loadsAfterSave 0 0 sched then 2 else 1)"
proof -
  let ?v = "votes pw"
  have ok: "dbOK w l1 l2 ?v d"
    using assms(1-3) by (simp add: dbOK_def)
  have wf: "wellFormed w l1 Start" "wellFormed w l2 Start"
    by (simp_all add: wellFormed_def)
  have inv: "AInv ?v 0 0 ?v (stage Start) (held Start) (stage Start) (held Start)"
    by (simp add: AInv_def)
  have e1: "Start = Start \<longrightarrow> existingVote (Vote d) n1 u1 w l1 = None"
    and e2: "Start = Start \<longrightarrow> existingVote (Vote d) n2 u2 w l2 = None"
    using assms(7,8) by simp_all
  from interleave_inv [OF assms(4-6) ok wf e1 e2 inv, of sched]
  obtain d' t1' t2' s' where
    run: "interleave (n1, u1, w, l1) (n2, u2, w, l2) sched (d, Start, Start) = (d', t1', t2')"
    and ok': "dbOK w l1 l2 s' d'" and wf': "wellFormed w l1 t1'" "wellFormed w l2 t2'"
    and inv': "AInv ?v (0 + count_list sched False) (0 + count_list sched True) s'
          (stage t1') (held t1') (stage t2') (held t2')"
    and fl: "flag ?v (stage t1') (held t1') (stage t2') (held t2') \<longleftrightarrow>
           flag ?v (stage Start) (held Start) (stage Start) (held Start) \<or> loadsAfterSave 0 0 sched"
    by auto
  from AInv_stage [OF inv'] assms(9,10) have "stage t1' = 6" "stage t2' = 6"
    by simp_all
  with wf' obtain r1 r2 where fin: "t1' = Finished (Inr r1)" "t2' = Finished (Inr r2)"
    by (blast dest: stage_Finished)
  from fl have fl': "flag ?v (stage t1') (held t1') (stage t2') (held t2') \<longleftrightarrow> loadsAfterSave 0 0 sched"
    by (simp add: flag_def)
  from AInv_final [OF inv'] assms(9,10)
  have "s' = ?v + (if loadsAfterSave 0 0 sched then 2 else 1)"
    by (simp only: fl' add_0)
  moreover from ok' obtain q where "findById (Profile d') w = Some q" "votes q = s'"
    by (auto simp: dbOK_def)
  ultimately show ?thesis
    using run fin by auto
qed

theorem interleave_votes_witness:
  "interleave (1000, 7, 1, 2) (1001, 8, 1, 3)
     [False, False, True, True, False, False, False, True, True, True, True, False]
     (\<lparr>Profile = [\<lparr>pid = 1, votes = 0, score = 0, battleWins = 0, battleLosses = 0,
                   votesHistory = [], chadVotes = 0, jeetVotes = 0\<rparr>,
                  \<lparr>pid = 2, votes = 0, score = 0, battleWins = 0, battleLosses = 0,
                   votesHistory = [], chadVotes = 0, jeetVotes = 0\<rparr>,
                  \<lparr>pid = 3, votes = 0, score = 0, battleWins = 0, battleLosses = 0,
                   votesHistory = [], chadVotes = 0, jeetVotes = 0\<rparr>], Vote = []\<rparr>,
      Start, Start)
   = (\<lparr>Profile = [\<lparr>pid = 1, votes = 2, score = 2, battleWins = 2, battleLosses = 0,
                   votesHistory = [\<lparr>hVoterId = 7, hTimestamp = 1000\<rparr>,
                                   \<lparr>hVoterId = 8, hTimestamp = 1001\<rparr>],
                   chadVotes = 0, jeetVotes = 0\<rparr>,
                  \<lparr>pid = 2, votes = 0, score = 0, battleWins = 0, battleLosses = 1,
                   votesHistory = [], chadVotes = 0, jeetVotes = 0\<rparr>,
                  \<lparr>pid = 3, votes = 0, score = 0, battleWins = 0, battleLosses = 1,
                   votesHistory = [], chadVotes = 0, jeetVotes = 0\<rparr>],
        Vote = [\<lparr>voterId = 7, winnerId = 1, loserId = 2, timestamp = 1000\<rparr>,
                \<lparr>voterId = 8, winnerId = 1, loserId = 3, timestamp = 1001\<rparr>]\<rparr>,
      Finished (Inr \<lparr>winner_id = 1, winner_votes = 1, winner_score = 1,
                     loser_id = 2, loser_votes = 0, loser_score = 0\<rparr>),
      Finished (Inr \<lparr>winner_id = 1, winner_votes = 2, winner_score = 2,
                     loser_id = 3, loser_votes = 0, loser_score = 0\<rparr>))
   \<and> loadsAfterSave 0 0
       [False, False, True, True, False, False, False, True, True, True, True, False]
   \<and> (\<exists>d' r1 r2 pw'.
         interleave (1000, 7, 1, 2) (1001, 8, 1, 3)
           [False, False, True, True, False, False, False, True, True, True, True, False]
           (\<lparr>Profile = [\<lparr>pid = 1, votes = 0, score = 0, battleWins = 0, battleLosses = 0,
                   votesHistory = [], chadVotes = 0, jeetVotes = 0\<rparr>,
                  \<lparr>pid = 2, votes = 0, score = 0, battleWins = 0, battleLosses = 0,
                   votesHistory = [], chadVotes = 0, jeetVotes = 0\<rparr>,
                  \<lparr>pid = 3, votes = 0, score = 0, battleWins = 0, battleLosses = 0,
                   votesHistory = [], chadVotes = 0, jeetVotes = 0\<rparr>], Vote = []\<rparr>,
            Start, Start) = (d', Finished (Inr r1), Finished (Inr r2)) \<and>
         findById (Profile d') 1 = Some pw' \<and> votes pw' = 0 + 2)"
proof -
  let ?d = "\<lparr>Profile = [\<lparr>pid = 1, votes = 0, score = 0, battleWins = 0, battleLosses = 0,
                   votesHistory = [], chadVotes = 0, jeetVotes = 0\<rparr>,
                  \<lparr>pid = 2, votes = 0, score = 0, battleWins = 0, battleLosses = 0,
                   votesHistory = [], chadVotes = 0, jeetVotes = 0\<rparr>,
                  \<lparr>pid = 3, votes = 0, score = 0, battleWins = 0, battleLosses = 0,
                   votesHistory = [], chadVotes = 0, jeetVotes = 0\<rparr>], Vote = []\<rparr>"
  let ?sched = "[False, False, True, True, False, False, False, True, True, True, True, False]"
  have a: "findById (Profile ?d) 1 = Some \<lparr>pid = 1, votes = 0, score = 0, battleWins = 0,
             battleLosses = 0, votesHistory = [], chadVotes = 0, jeetVotes = 0\<rparr>"
    by (simp add: findById_def)
  have b: "findById (Profile ?d) 2 = Some \<lparr>pid = 2, votes = 0, score = 0, battleWins = 0,
             battleLosses = 0, votesHistory = [], chadVotes = 0, jeetVotes = 0\<rparr>"
    by (simp add: findById_def)
  have c: "findById (Profile ?d) 3 = Some \<lparr>pid = 3, votes = 0, score = 0, battleWins = 0,
             battleLosses = 0, votesHistory = [], chadVotes = 0, jeetVotes = 0\<rparr>"
    by (simp add: findById_def)
  have n: "(1::nat) \<noteq> 2" "(1::nat) \<noteq> 3" "(7::nat) \<noteq> 8" by simp_all
  have e: "existingVote (Vote ?d) 1000 7 1 2 = None" "existingVote (Vote ?d) 1001 8 1 3 = None"
    by (simp_all add: existingVote_def)
  have k: "6 \<le> count_list ?sched False" "6 \<le> count_list ?sched True"
    by simp_all
  have s: "loadsAfterSave 0 0 ?sched"
    by (simp add: eval_nat_numeral)
  have run: "interleave (1000, 7, 1, 2) (1001, 8, 1, 3) ?sched (?d, Start, Start)
   = (\<lparr>Profile = [\<lparr>pid = 1, votes = 2, score = 2, battleWins = 2, battleLosses = 0,
                   votesHistory = [\<lparr>hVoterId = 7, hTimestamp = 1000\<rparr>,
                                   \<lparr>hVoterId = 8, hTimestamp = 1001\<rparr>],
                   chadVotes = 0, jeetVotes = 0\<rparr>,
                  \<lparr>pid = 2, votes = 0, score = 0, battleWins = 0, battleLosses = 1,
                   votesHistory = [], chadVotes = 0, jeetVotes = 0\<rparr>,
                  \<lparr>pid = 3, votes = 0, score = 0, battleWins = 0, battleLosses = 1,
                   votesHistory = [], chadVotes = 0, jeetVotes = 0\<rparr>],
        Vote = [\<lparr>voterId = 7, winnerId = 1, loserId = 2, timestamp = 1000\<rparr>,
                \<lparr>voterId = 8, winnerId = 1, loserId = 3, timestamp = 1001\<rparr>]\<rparr>,
      Finished (Inr \<lparr>winner_id = 1, winner_votes = 1, winner_score = 1,
                     loser_id = 2, loser_votes = 0, loser_score = 0\<rparr>),
      Finished (Inr \<lparr>winner_id = 1, winner_votes = 2, winner_score = 2,
                     loser_id = 3, loser_votes = 0, loser_score = 0\<rparr>))"
    by (simp add: existingVote_def recentVote_def saveVote_def findById_def
        applyWin_def applyLoss_def saveWinner_def saveLoser_def battleResponse_def)
  from interleave_votes [OF a b c n e k] s
  have "\<exists>d' r1 r2 pw'.
         interleave (1000, 7, 1, 2) (1001, 8, 1, 3) ?sched (?d, Start, Start) =
           (d', Finished (Inr r1), Finished (Inr r2)) \<and>
         findById (Profile d') 1 = Some pw' \<and> votes pw' = 0 + 2"
    by simp
  with run s show ?thesis by (intro conjI)
qed

text \<open>
  A schedule in which both handlers load the winner before either saves it: both
  succeed and the winner's \<open>votes\<close> ends 1 higher, not 2.
\<close>

theorem interleave_lost_update_counterexample:
  "interleave (1000, 7, 1, 2) (1001, 8, 1, 3)
     [False, False, False, False, True, True, True, True, False, False, True, True]
     (\<lparr>Profile = [\<lparr>pid = 1, votes = 0, score = 0, battleWins = 0, battleLosses = 0,
                   votesHistory = [], chadVotes = 0, jeetVotes = 0\<rparr>,
                  \<lparr>pid = 2, votes = 0, score = 0, battleWins = 0, battleLosses = 0,
                   votesHistory = [], chadVotes = 0, jeetVotes = 0\<rparr>,
                  \<lparr>pid = 3, votes = 0, score = 0, battleWins = 0, battleLosses = 0,
                   votesHistory = [], chadVotes = 0, jeetVotes = 0\<rparr>], Vote = []\<rparr>,
      Start, Start)
   = (\<lparr>Profile = [\<lparr>pid = 1, votes = 1, score = 1, battleWins = 1, battleLosses = 0,
                   votesHistory = [\<lparr>hVoterId = 7, hTimestamp = 1000\<rparr>,
                                   \<lparr>hVoterId = 8, hTimestamp = 1001\<rparr>],
                   chadVotes = 0, jeetVotes = 0\<rparr>,
                  \<lparr>pid = 2, votes = 0, score = 0, battleWins = 0, battleLosses = 1,
                   votesHistory = [], chadVotes = 0, jeetVotes = 0\<rparr>,
                  \<lparr>pid = 3, votes = 0, score = 0, battleWins = 0, battleLosses = 1,
                   votesHistory = [], chadVotes = 0, jeetVotes = 0\<rparr>],
        Vote = [\<lparr>voterId = 7, winnerId = 1, loserId = 2, timestamp = 1000\<rparr>,
                \<lparr>voterId = 8, winnerId = 1, loserId = 3, timestamp = 1001\<rparr>]\<rparr>,
      Finished (Inr \<lparr>winner_id = 1, winner_votes = 1, winner_score = 1,
                     loser_id = 2, loser_votes = 0, loser_score = 0\<rparr>),
      Finished (Inr \<lparr>winner_id = 1, winner_votes = 1, winner_score = 1,
                     loser_id = 3, loser_votes = 0, loser_score = 0\<rparr>))"
  by (simp add: existingVote_def recentVote_def saveVote_def findById_def
        applyWin_def applyLoss_def saveWinner_def saveLoser_def battleResponse_def)

section \<open>Properties of the leaderboard\<close>

lemma sortVotesScore_set [simp]: "set (sortVotesScore ps) = set ps"
  by (simp add: sortVotesScore_def)

lemma sortVotesScore_length [simp]: "length (sortVotesScore ps) = length ps"
  by (simp add: sortVotesScore_def)

lemma sortVotesScore_sorted:
  "sorted_wrt (\<lambda>p q. votes p > votes q \<or> (votes p = votes q \<and> score p \<ge> score q))
     (sortVotesScore ps)"
proof -
  have "sorted (map (\<lambda>p. (- votes p, - score p)) (sortVotesScore ps))"
    unfolding sortVotesScore_def by (rule sorted_sort_key)
  then have "sorted_wrt (\<lambda>p q. (- votes p, - score p) \<le> (- votes q, - score q)) (sortVotesScore ps)"
    by (simp add: sorted_map)
  then show ?thesis
    by (rule sorted_wrt_mono_rel [rotated]) (auto simp: less_eq_prod_def)
qed

lemma limitTo_set: "set (limitTo n xs) \<subseteq> set xs"
  by (auto simp: limitTo_def dest: in_set_takeD)

lemma limitTo_length: "0 < n \<Longrightarrow> length (limitTo n xs) \<le> n"
  by (simp add: limitTo_def)

lemma limitTo_sorted_wrt: "sorted_wrt R xs \<Longrightarrow> sorted_wrt R (limitTo n xs)"
  by (simp add: limitTo_def sorted_wrt_take)

lemma getLeaderboard_subset:
  "set (getLeaderboard d now period limit) \<subseteq> {p \<in> set (Profile d). dateFilter period now p}"
  using limitTo_set [of limit "sortVotesScore (filter (dateFilter period now) (Profile d))"]
  by (auto simp: getLeaderboard_def)

lemma sortVotesScore_mset [simp]: "mset (sortVotesScore ps) = mset ps"
  by (simp add: sortVotesScore_def)

lemma dateFilter_iff:
  "dateFilter period now p \<longleftrightarrow>
     (period = ''day'' \<longrightarrow> (\<exists>e \<in> set (votesHistory p). hTimestamp e \<ge> now - 24 * 60 * 60 * 1000)) \<and>
     (period = ''week'' \<longrightarrow> (\<exists>e \<in> set (votesHistory p). hTimestamp e \<ge> now - 7 * 24 * 60 * 60 * 1000)) \<and>
     (period = ''month'' \<longrightarrow> (\<exists>e \<in> set (votesHistory p). hTimestamp e \<ge> now - 30 * 24 * 60 * 60 * 1000))"
  by (auto simp: dateFilter_def list_ex_iff)

lemma dateFilter_eq:
  "dateFilter period now = (\<lambda>p.
     (period = ''day'' \<longrightarrow> (\<exists>e \<in> set (votesHistory p). hTimestamp e \<ge> now - 24 * 60 * 60 * 1000)) \<and>
     (period = ''week'' \<longrightarrow> (\<exists>e \<in> set (votesHistory p). hTimestamp e \<ge> now - 7 * 24 * 60 * 60 * 1000)) \<and>
     (period = ''month'' \<longrightarrow> (\<exists>e \<in> set (votesHistory p). hTimestamp e \<ge> now - 30 * 24 * 60 * 60 * 1000)))"
  by (rule ext) (rule dateFilter_iff)

lemma limitTo_split:
  "\<exists>rest. xs = limitTo n xs @ rest \<and> length (limitTo n xs) = (if n = 0 then length xs else min n (length xs))"
proof (cases "n = 0")
  case True
  then show ?thesis by (simp add: limitTo_def)
next
  case False
  then have l: "limitTo n xs = take n xs" by (simp add: limitTo_def)
  show ?thesis
    unfolding l using False by (intro exI [of _ "drop n xs"]) (simp add: min.commute)
qed

lemma getLeaderboard_selection:
  fixes d now period limit
  defines "Q \<equiv> filter (dateFilter period now) (Profile d)"
    and "B \<equiv> getLeaderboard d now period limit"
  shows "length B = (if limit = 0 then length Q else min limit (length Q))"
    and "\<exists>rest. mset Q = mset B + mset rest \<and>
          (\<forall>r \<in> set B. \<forall>x \<in> set rest. votes r > votes x \<or> (votes r = votes x \<and> score r \<ge> score x))"
    and "sorted_wrt (\<lambda>p q. votes p > votes q \<or> (votes p = votes q \<and> score p \<ge> score q)) B"
    and "(limit = 0 \<or> length Q \<le> limit) \<longrightarrow> mset B = mset Q"
    and "Q = [] \<longrightarrow> B = []"
proof -
  let ?R = "\<lambda>p q. votes p > votes q \<or> (votes p = votes q \<and> score p \<ge> score q)"
  define S where "S = sortVotesScore Q"
  have B: "B = limitTo limit S"
    by (simp add: B_def S_def Q_def getLeaderboard_def)
  have lS: "length S = length Q" and mS: "mset S = mset Q"
    by (simp_all add: S_def)
  from limitTo_split [of S limit] obtain rest where
    rest: "S = B @ rest" and
    len: "length B = (if limit = 0 then length S else min limit (length S))"
    unfolding B by blast
  show len': "length B = (if limit = 0 then length Q else min limit (length Q))"
    using len lS by simp
  have "sorted_wrt ?R S"
    unfolding S_def by (rule sortVotesScore_sorted)
  then have "sorted_wrt ?R (B @ rest)"
    using rest by simp
  then have sB: "sorted_wrt ?R B" and rank: "\<forall>r \<in> set B. \<forall>x \<in> set rest. ?R r x"
    by (simp_all add: sorted_wrt_append)
  show "sorted_wrt ?R B" by (rule sB)
  have ms: "mset Q = mset B + mset rest"
    using mS rest by (metis mset_append)
  with rank show "\<exists>rest. mset Q = mset B + mset rest \<and> (\<forall>r \<in> set B. \<forall>x \<in> set rest. ?R r x)"
    by blast
  show "(limit = 0 \<or> length Q \<le> limit) \<longrightarrow> mset B = mset Q"
  proof
    assume "limit = 0 \<or> length Q \<le> limit"
    with len' have "length B = length Q" by auto
    moreover have "length S = length B + length rest"
      by (subst rest) simp
    ultimately have "rest = []" using lS by simp
    with ms show "mset B = mset Q" by simp
  qed
  show "Q = [] \<longrightarrow> B = []"
  proof
    assume "Q = []"
    with len' have "length B = 0" by (cases "limit = 0") simp_all
    then show "B = []" by simp
  qed
qed

text \<open>
  C6 (as the handler has it). A profile qualifies for \<open>'day'\<close>, \<open>'week'\<close> or \<open>'month'\<close>
  when its \<open>votesHistory\<close> (one entry pushed per battle win) has an entry no older than
  24 hours, 7 days or 30 days; for \<open>'all'\<close> and any other period string every stored
  profile qualifies. The leaderboard is a selection of the qualifying profiles: it has
  \<open>min limit n\<close> entries of the \<open>n\<close> qualifying ones for a positive limit and all \<open>n\<close>
  for limit 0; every qualifying profile left out ranks no higher than any entry; the
  entries are ordered by \<open>votes\<close> descending, then \<open>score\<close> descending. For \<open>'all'\<close>
  with a limit that does not cut, the leaderboard holds every stored profile. With no
  qualifying profile it is empty.
\<close>

theorem getLeaderboard_properties:
  "(let qualifies = (\<lambda>p.
          (period = ''day'' \<longrightarrow> (\<exists>e \<in> set (votesHistory p). hTimestamp e \<ge> now - 24 * 60 * 60 * 1000)) \<and>
          (period = ''week'' \<longrightarrow> (\<exists>e \<in> set (votesHistory p). hTimestamp e \<ge> now - 7 * 24 * 60 * 60 * 1000)) \<and>
          (period = ''month'' \<longrightarrow> (\<exists>e \<in> set (votesHistory p). hTimestamp e \<ge> now - 30 * 24 * 60 * 60 * 1000)));
        qualified = filter qualifies (Profile d);
        board = getLeaderboard d now period limit
    in length board = (if limit = 0 then length qualified else min limit (length qualified)) \<and>
       (\<exists>rest. mset qualified = mset board + mset rest \<and>
          (\<forall>r \<in> set board. \<forall>x \<in> set rest.
             votes r > votes x \<or> (votes r = votes x \<and> score r \<ge> score x))) \<and>
       sorted_wrt (\<lambda>p q. votes p > votes q \<or> (votes p = votes q \<and> score p \<ge> score q)) board \<and>
       (period \<noteq> ''day'' \<and> period \<noteq> ''week'' \<and> period \<noteq> ''month'' \<and>
        (limit = 0 \<or> length (Profile d) \<le> limit) \<longrightarrow> mset board = mset (Profile d)) \<and>
       (qualified = [] \<longrightarrow> board = []))"
proof -
  note sel = getLeaderboard_selection [where d = d and now = now and period = period and limit = limit, unfolded dateFilter_eq]
  have all: "period \<noteq> ''day'' \<and> period \<noteq> ''week'' \<and> period \<noteq> ''month'' \<and>
        (limit = 0 \<or> length (Profile d) \<le> limit) \<longrightarrow>
        mset (getLeaderboard d now period limit) = mset (Profile d)"
  proof
    assume h: "period \<noteq> ''day'' \<and> period \<noteq> ''week'' \<and> period \<noteq> ''month'' \<and>
        (limit = 0 \<or> length (Profile d) \<le> limit)"
    then have Q: "filter (dateFilter period now) (Profile d) = Profile d"
      by (simp add: dateFilter_def)
    from getLeaderboard_selection(4) [where d = d and now = now and period = period and limit = limit] h
    show "mset (getLeaderboard d now period limit) = mset (Profile d)"
      unfolding Q by blast
  qed
  show ?thesis
    unfolding Let_def
    apply (intro conjI)
        apply (rule sel(1))
       apply (rule sel(2))
      apply (rule sel(3))
     apply (rule all)
    apply (rule sel(5))
    done
qed

theorem getLeaderboard_properties_witness:
  "getLeaderboard
     \<lparr>Profile = [\<lparr>pid = 1, votes = 3, score = 3, battleWins = 3, battleLosses = 0,
                  votesHistory = [\<lparr>hVoterId = 7, hTimestamp = 90000000\<rparr>], chadVotes = 0, jeetVotes = 0\<rparr>,
                 \<lparr>pid = 2, votes = 5, score = 5, battleWins = 5, battleLosses = 0,
                  votesHistory = [\<lparr>hVoterId = 7, hTimestamp = 1000\<rparr>], chadVotes = 0, jeetVotes = 0\<rparr>,
                 \<lparr>pid = 3, votes = 4, score = 9, battleWins = 4, battleLosses = 0,
                  votesHistory = [\<lparr>hVoterId = 8, hTimestamp = 95000000\<rparr>], chadVotes = 0, jeetVotes = 0\<rparr>,
                 \<lparr>pid = 4, votes = 4, score = 10, battleWins = 4, battleLosses = 0,
                  votesHistory = [\<lparr>hVoterId = 8, hTimestamp = 96000000\<rparr>], chadVotes = 0, jeetVotes = 0\<rparr>],
      Vote = []\<rparr> 100000000 ''day'' 2
   = [\<lparr>pid = 4, votes = 4, score = 10, battleWins = 4, battleLosses = 0,
       votesHistory = [\<lparr>hVoterId = 8, hTimestamp = 96000000\<rparr>], chadVotes = 0, jeetVotes = 0\<rparr>,
      \<lparr>pid = 3, votes = 4, score = 9, battleWins = 4, battleLosses = 0,
       votesHistory = [\<lparr>hVoterId = 8, hTimestamp = 95000000\<rparr>], chadVotes = 0, jeetVotes = 0\<rparr>]
   \<and> sorted_wrt (\<lambda>p q. votes p > votes q \<or> (votes p = votes q \<and> score p \<ge> score q))
       (getLeaderboard
     \<lparr>Profile = [\<lparr>pid = 1, votes = 3, score = 3, battleWins = 3, battleLosses = 0,
                  votesHistory = [\<lparr>hVoterId = 7, hTimestamp = 90000000\<rparr>], chadVotes = 0, jeetVotes = 0\<rparr>,
                 \<lparr>pid = 2, votes = 5, score = 5, battleWins = 5, battleLosses = 0,
                  votesHistory = [\<lparr>hVoterId = 7, hTimestamp = 1000\<rparr>], chadVotes = 0, jeetVotes = 0\<rparr>,
                 \<lparr>pid = 3, votes = 4, score = 9, battleWins = 4, battleLosses = 0,
                  votesHistory = [\<lparr>hVoterId = 8, hTimestamp = 95000000\<rparr>], chadVotes = 0, jeetVotes = 0\<rparr>,
                 \<lparr>pid = 4, votes = 4, score = 10, battleWins = 4, battleLosses = 0,
                  votesHistory = [\<lparr>hVoterId = 8, hTimestamp = 96000000\<rparr>], chadVotes = 0, jeetVotes = 0\<rparr>],
      Vote = []\<rparr> 100000000 ''day'' 2)"
proof -
  let ?d = "\<lparr>Profile = [\<lparr>pid = 1, votes = 3, score = 3, battleWins = 3, battleLosses = 0,
                  votesHistory = [\<lparr>hVoterId = 7, hTimestamp = 90000000\<rparr>], chadVotes = 0, jeetVotes = 0\<rparr>,
                 \<lparr>pid = 2, votes = 5, score = 5, battleWins = 5, battleLosses = 0,
                  votesHistory = [\<lparr>hVoterId = 7, hTimestamp = 1000\<rparr>], chadVotes = 0, jeetVotes = 0\<rparr>,
                 \<lparr>pid = 3, votes = 4, score = 9, battleWins = 4, battleLosses = 0,
                  votesHistory = [\<lparr>hVoterId = 8, hTimestamp = 95000000\<rparr>], chadVotes = 0, jeetVotes = 0\<rparr>,
                 \<lparr>pid = 4, votes = 4, score = 10, battleWins = 4, battleLosses = 0,
                  votesHistory = [\<lparr>hVoterId = 8, hTimestamp = 96000000\<rparr>], chadVotes = 0, jeetVotes = 0\<rparr>],
      Vote = []\<rparr>"
  have run: "getLeaderboard ?d 100000000 ''day'' 2
   = [\<lparr>pid = 4, votes = 4, score = 10, battleWins = 4, battleLosses = 0,
       votesHistory = [\<lparr>hVoterId = 8, hTimestamp = 96000000\<rparr>], chadVotes = 0, jeetVotes = 0\<rparr>,
      \<lparr>pid = 3, votes = 4, score = 9, battleWins = 4, battleLosses = 0,
       votesHistory = [\<lparr>hVoterId = 8, hTimestamp = 95000000\<rparr>], chadVotes = 0, jeetVotes = 0\<rparr>]"
    by (simp add: getLeaderboard_def dateFilter_def sortVotesScore_def limitTo_def less_eq_prod_def)
  note t = getLeaderboard_properties
    [where d = ?d and now = 100000000 and period = "''day''" and limit = 2, unfolded Let_def]
  from t have "sorted_wrt (\<lambda>p q. votes p > votes q \<or> (votes p = votes q \<and> score p \<ge> score q))
       (getLeaderboard ?d 100000000 ''day'' 2)"
    by (elim conjE)
  with run show ?thesis by (intro conjI)
qed

text \<open>
  A store of two profiles that never won a battle (no vote record, empty histories),
  equal in \<open>votes\<close> and \<open>score\<close>, held in the order id 2, id 1. For \<open>'all'\<close> with limit
  10 both are on the leaderboard, id 2 before id 1; with limit 0 both are returned as
  well.
\<close>

theorem getLeaderboard_all_counterexample:
  "getLeaderboard
     \<lparr>Profile = [\<lparr>pid = 2, votes = 0, score = 0, battleWins = 0, battleLosses = 0,
                  votesHistory = [], chadVotes = 0, jeetVotes = 0\<rparr>,
                 \<lparr>pid = 1, votes = 0, score = 0, battleWins = 0, battleLosses = 0,
                  votesHistory = [], chadVotes = 0, jeetVotes = 0\<rparr>], Vote = []\<rparr> 1000 ''all'' 10
   = [\<lparr>pid = 2, votes = 0, score = 0, battleWins = 0, battleLosses = 0,
       votesHistory = [], chadVotes = 0, jeetVotes = 0\<rparr>,
      \<lparr>pid = 1, votes = 0, score = 0, battleWins = 0, battleLosses = 0,
       votesHistory = [], chadVotes = 0, jeetVotes = 0\<rparr>]
   \<and> getLeaderboard
     \<lparr>Profile = [\<lparr>pid = 2, votes = 0, score = 0, battleWins = 0, battleLosses = 0,
                  votesHistory = [], chadVotes = 0, jeetVotes = 0\<rparr>,
                 \<lparr>pid = 1, votes = 0, score = 0, battleWins = 0, battleLosses = 0,
                  votesHistory = [], chadVotes = 0, jeetVotes = 0\<rparr>], Vote = []\<rparr> 1000 ''all'' 0
   = [\<lparr>pid = 2, votes = 0, score = 0, battleWins = 0, battleLosses = 0,
       votesHistory = [], chadVotes = 0, jeetVotes = 0\<rparr>,
      \<lparr>pid = 1, votes = 0, score = 0, battleWins = 0, battleLosses = 0,
       votesHistory = [], chadVotes = 0, jeetVotes = 0\<rparr>]"
  by (simp add: getLeaderboard_def dateFilter_def sortVotesScore_def limitTo_def less_eq_prod_def)

section \<open>Properties of the battle pair\<close>

lemma sample_full:
  "mset (map snd (sort_key fst (zip (map rnd [0..<length ps]) ps))) = mset ps"
proof -
  have "mset (map snd (sort_key fst (zip (map rnd [0..<length ps]) ps))) =
        mset (map snd (zip (map rnd [0..<length ps]) ps))"
    by (simp only: mset_map mset_sort)
  also have "map snd (zip (map rnd [0..<length ps]) ps) = ps"
    by (rule map_snd_zip) simp
  finally show ?thesis .
qed

lemma sample_length: "length (sample rnd n ps) = min n (length ps)"
proof -
  have "length (map snd (sort_key fst (zip (map rnd [0..<length ps]) ps))) = length ps"
    by simp
  then show ?thesis
    by (simp add: sample_def min.commute)
qed

lemma sample_set: "set (sample rnd n ps) \<subseteq> set ps"
proof -
  have "set (map snd (sort_key fst (zip (map rnd [0..<length ps]) ps))) = set ps"
    using sample_full [of rnd ps] by (metis set_mset_mset)
  then show ?thesis
    unfolding sample_def by (metis set_take_subset)
qed

lemma sample_distinct:
  assumes "distinct (map pid ps)"
  shows "distinct (map pid (sample rnd n ps))"
proof -
  let ?S = "map snd (sort_key fst (zip (map rnd [0..<length ps]) ps))"
  have "mset (map pid ?S) = mset (map pid ps)"
    using sample_full [of rnd ps] by (metis mset_map)
  with assms have "distinct (map pid ?S)"
    by (metis mset_eq_imp_distinct_iff)
  then show ?thesis
    by (simp add: sample_def take_map [symmetric] distinct_take del: take_map)
qed

text \<open>
  C8. Over a store of at least two profiles (their \<open>_id\<close>s unique, as the store keeps
  them), every call of \<open>loadNewProfiles\<close>, whatever the random keys of the sample,
  yields a pair of stored profiles with two different ids.
\<close>

theorem loadNewProfiles_distinct:
  assumes "distinct (map pid (Profile d))" and "2 \<le> length (Profile d)"
  shows "\<exists>a b. loadNewProfiles d rnd = Some (a, b) \<and> pid a \<noteq> pid b \<and>
               a \<in> set (Profile d) \<and> b \<in> set (Profile d)"
proof -
  let ?P = "getProfilesRandom d rnd 2"
  have len: "length ?P = 2"
    using assms(2) by (simp add: getProfilesRandom_def sample_length)
  then obtain a b where P: "?P = [a, b]"
    by (metis (no_types, opaque_lifting) One_nat_def Suc_1 length_0_conv length_Suc_conv)
  have "distinct (map pid ?P)"
    unfolding getProfilesRandom_def using assms(1) by (rule sample_distinct)
  with P have ne: "pid a \<noteq> pid b" by simp
  have "set ?P \<subseteq> set (Profile d)"
    unfolding getProfilesRandom_def by (rule sample_set)
  with P have mem: "a \<in> set (Profile d)" "b \<in> set (Profile d)" by simp_all
  have "loadNewProfiles d rnd = Some (a, b)"
    by (simp add: loadNewProfiles_def Let_def P)
  with ne mem show ?thesis by blast
qed

theorem loadNewProfiles_distinct_witness:
  "distinct (map pid (Profile
      \<lparr>Profile = [\<lparr>pid = 1, votes = 0, score = 0, battleWins = 0, battleLosses = 0,
                   votesHistory = [], chadVotes = 0, jeetVotes = 0\<rparr>,
                  \<lparr>pid = 2, votes = 0, score = 0, battleWins = 0, battleLosses = 0,
                   votesHistory = [], chadVotes = 0, jeetVotes = 0\<rparr>,
                  \<lparr>pid = 3, votes = 0, score = 0, battleWins = 0, battleLosses = 0,
                   votesHistory = [], chadVotes = 0, jeetVotes = 0\<rparr>], Vote = []\<rparr>))
   \<and> 2 \<le> length (Profile
      \<lparr>Profile = [\<lparr>pid = 1, votes = 0, score = 0, battleWins = 0, battleLosses = 0,
                   votesHistory = [], chadVotes = 0, jeetVotes = 0\<rparr>,
                  \<lparr>pid = 2, votes = 0, score = 0, battleWins = 0, battleLosses = 0,
                   votesHistory = [], chadVotes = 0, jeetVotes = 0\<rparr>,
                  \<lparr>pid = 3, votes = 0, score = 0, battleWins = 0, battleLosses = 0,
                   votesHistory = [], chadVotes = 0, jeetVotes = 0\<rparr>], Vote = []\<rparr>)
   \<and> loadNewProfiles
      \<lparr>Profile = [\<lparr>pid = 1, votes = 0, score = 0, battleWins = 0, battleLosses = 0,
                   votesHistory = [], chadVotes = 0, jeetVotes = 0\<rparr>,
                  \<lparr>pid = 2, votes = 0, score = 0, battleWins = 0, battleLosses = 0,
                   votesHistory = [], chadVotes = 0, jeetVotes = 0\<rparr>,
                  \<lparr>pid = 3, votes = 0, score = 0, battleWins = 0, battleLosses = 0,
                   votesHistory = [], chadVotes = 0, jeetVotes = 0\<rparr>], Vote = []\<rparr>
      (\<lambda>i. if i = 0 then 5 else if i = 1 then 9 else 2)
     = Some (\<lparr>pid = 3, votes = 0, score = 0, battleWins = 0, battleLosses = 0,
              votesHistory = [], chadVotes = 0, jeetVotes = 0\<rparr>,
             \<lparr>pid = 1, votes = 0, score = 0, battleWins = 0, battleLosses = 0,
              votesHistory = [], chadVotes = 0, jeetVotes = 0\<rparr>)
   \<and> (3::nat) \<noteq> 1"
proof -
  let ?d = "\<lparr>Profile = [\<lparr>pid = 1, votes = 0, score = 0, battleWins = 0, battleLosses = 0,
                   votesHistory = [], chadVotes = 0, jeetVotes = 0\<rparr>,
                  \<lparr>pid = 2, votes = 0, score = 0, battleWins = 0, battleLosses = 0,
                   votesHistory = [], chadVotes = 0, jeetVotes = 0\<rparr>,
                  \<lparr>pid = 3, votes = 0, score = 0, battleWins = 0, battleLosses = 0,
                   votesHistory = [], chadVotes = 0, jeetVotes = 0\<rparr>], Vote = []\<rparr>"
  have a: "distinct (map pid (Profile ?d))" by simp
  have b: "2 \<le> length (Profile ?d)" by simp
  have run: "loadNewProfiles ?d (\<lambda>i. if i = 0 then 5 else if i = 1 then 9 else 2)
     = Some (\<lparr>pid = 3, votes = 0, score = 0, battleWins = 0, battleLosses = 0,
              votesHistory = [], chadVotes = 0, jeetVotes = 0\<rparr>,
             \<lparr>pid = 1, votes = 0, score = 0, battleWins = 0, battleLosses = 0,
              votesHistory = [], chadVotes = 0, jeetVotes = 0\<rparr>)"
    by (simp add: loadNewProfiles_def getProfilesRandom_def sample_def Let_def upt_rec)
  from loadNewProfiles_distinct [OF a b, of "\<lambda>i. if i = 0 then 5 else if i = 1 then 9 else 2"] run
  have "(3::nat) \<noteq> 1" by simp
  with a b run show ?thesis by blast
qed

end
